theory Spec2Isabelle
  imports Main "HOL-Library.Multiset"
begin

section \<open>Edit history of the code editor (components/Editor.tsx)\<close>

text \<open>
  The editor keeps two pieces of React state, \<open>editHistory\<close> (initially \<open>[code]\<close>) and
  \<open>historyPtr\<close> (initially \<open>0\<close>), and reports every content change to its parent through
  \<open>onChange\<close>. The parent stores what it receives as the content of the active file and
  hands it back as the \<open>code\<close> property, so \<open>code\<close> below is the content on display.

  A JavaScript array read out of range yields \<open>undefined\<close>; \<open>js_index\<close> returns \<open>None\<close>
  there, and \<open>code\<close> is an option for the same reason: \<open>onChange(editHistory[newPtr])\<close>
  passes on whatever the read gave.
\<close>

definition js_index :: "'a list \<Rightarrow> nat \<Rightarrow> 'a option" where
  "js_index xs i = (if i < length xs then Some (xs ! i) else None)"

record Editor =
  editHistory :: "string list"
  historyPtr :: nat
  code :: "string option"

definition initEditor :: "string \<Rightarrow> Editor" where
  "initEditor c = \<lparr>editHistory = [c], historyPtr = 0, code = Some c\<rparr>"

text \<open>
  \<open>handleChange\<close> (the spec's \<open>recordEdit\<close>): \<open>editHistory.slice(0, historyPtr + 1)\<close> is
  \<open>take (historyPtr + 1)\<close>, and \<open>newCode !== editHistory[historyPtr]\<close> compares a string
  with a possibly undefined read.
\<close>

definition handleChange :: "string \<Rightarrow> Editor \<Rightarrow> Editor" where
  "handleChange newCode s =
     (let s1 = s\<lparr>code := Some newCode\<rparr> in
      if Some newCode \<noteq> js_index (editHistory s) (historyPtr s) then
        (let newHistory = take (historyPtr s + 1) (editHistory s) @ [newCode] in
         s1\<lparr>editHistory := newHistory, historyPtr := length newHistory - 1\<rparr>)
      else s1)"

definition handleUndo :: "Editor \<Rightarrow> Editor" where
  "handleUndo s =
     (if historyPtr s > 0 then
        (let newPtr = historyPtr s - 1 in
         s\<lparr>historyPtr := newPtr, code := js_index (editHistory s) newPtr\<rparr>)
      else s)"

text \<open>
  \<open>editHistory.length - 1\<close> is \<open>-1\<close> for an empty array, so the comparison of
  \<open>handleRedo\<close> is made over the integers.
\<close>

definition handleRedo :: "Editor \<Rightarrow> Editor" where
  "handleRedo s =
     (if int (historyPtr s) < int (length (editHistory s)) - 1 then
        (let newPtr = historyPtr s + 1 in
         s\<lparr>historyPtr := newPtr, code := js_index (editHistory s) newPtr\<rparr>)
      else s)"

text \<open>A run of \<open>handleChange\<close> calls from the initial state, oldest call first.\<close>

definition recordEdits :: "string \<Rightarrow> string list \<Rightarrow> Editor" where
  "recordEdits c xs = foldl (\<lambda>s x. handleChange x s) (initEditor c) xs"

text \<open>
  The invariant of the data model: the pointer is a valid index and the entry it points to
  is the content on display. \<open>at_tail\<close> adds that nothing lies beyond the pointer.
\<close>

definition valid_editor :: "Editor \<Rightarrow> bool" where
  "valid_editor s \<longleftrightarrow>
     historyPtr s < length (editHistory s) \<and> code s = Some (editHistory s ! historyPtr s)"

definition at_tail :: "Editor \<Rightarrow> bool" where
  "at_tail s \<longleftrightarrow> valid_editor s \<and> historyPtr s + 1 = length (editHistory s)"

section \<open>Data model (types.ts)\<close>

text \<open>
  An optional or nullable field of the source is an option: \<open>None\<close> stands for both
  \<open>undefined\<close> and \<open>null\<close>, which the code never tells apart (it tests such fields for
  truthiness only). A project analysis is only stored and cleared by the code modelled here,
  never built or inspected, so its type is left opaque. Timestamps are \<open>Date.now()\<close>
  readings, natural numbers.
\<close>

datatype Severity = INFO | LOW | MEDIUM | HIGH | CRITICAL

record CodeIssue =
  severity :: Severity
  line :: "nat option"
  title :: string
  issue_description :: string
  suggestion :: string

record AnalysisResult =
  overallScore :: nat
  summary :: string
  issues :: "CodeIssue list"
  securityScore :: nat
  maintainabilityScore :: nat
  analysis_timestamp :: "nat option"

typedecl ProjectAnalysis

record FileVersion =
  version_id :: string
  timestamp :: nat
  version_content :: string
  description :: string

record FileData =
  file_id :: string
  name :: string
  path :: string
  content :: string
  language :: string
  analysis :: "AnalysisResult option"
  isAnalyzing :: "bool option"
  stagingContent :: "string option"
  isFixing :: "bool option"
  history :: "FileVersion list option"
  cursor :: "(nat \<times> nat) option"

record Project =
  project_id :: string
  project_name :: string
  createdAt :: nat
  files :: "FileData list"
  projectAnalysis :: "ProjectAnalysis option"
  project_isAnalyzing :: "bool option"
  githubUrl :: "string option"

datatype ChatRole = User | Model

record ChatMessage =
  message_id :: string
  role :: ChatRole
  message_text :: string
  message_timestamp :: nat
  isAction :: "bool option"

section \<open>State of the top-level component (App.tsx)\<close>

text \<open>
  The React state of \<open>App\<close> that the handlers below read or write. Messages shown with
  \<open>window.alert\<close> are collected in \<open>alerts\<close>, oldest first. A handler is one
  transition of this state: the values it reads from its closure and the previous state its
  functional updates receive are those of the state it is applied to.
\<close>

datatype View = DASHBOARD | WORKSPACE

record App =
  view :: View
  projects :: "Project list"
  currentProjectId :: "string option"
  activeFileId :: "string option"
  showSidebar :: bool
  showAnalysis :: bool
  githubUrl_input :: string
  showGithubModal :: bool
  loadingMsg :: string
  toastMsg :: string
  showDiff :: bool
  chatMessages :: "ChatMessage list"
  alerts :: "string list"

text \<open>
  \<open>projects.find(p => p.id === currentProjectId)\<close> and
  \<open>currentProject?.files.find(f => f.id === activeFileId)\<close>: a null selector equals no id.
\<close>

definition currentProject :: "App \<Rightarrow> Project option" where
  "currentProject st = List.find (\<lambda>p. Some (project_id p) = currentProjectId st) (projects st)"

definition activeFile :: "App \<Rightarrow> FileData option" where
  "activeFile st =
     (case currentProject st of
        None \<Rightarrow> None
      | Some p \<Rightarrow> List.find (\<lambda>f. Some (file_id f) = activeFileId st) (files p))"

text \<open>\<open>f.history || []\<close>: the version archive of a file, empty when the field is absent.\<close>

definition archive :: "FileData \<Rightarrow> FileVersion list" where
  "archive f = (case history f of None \<Rightarrow> [] | Some h \<Rightarrow> h)"

text \<open>
  \<open>Array.prototype.map\<close> hands its callback the element and its index. The handlers use
  the element only, but \<open>handleAcceptFix\<close> reads \<open>Math.random()\<close>, \<open>Date.now()\<close> and the
  clock's \<open>toLocaleTimeString()\<close> inside the callback, once for every file it rewrites;
  \<open>Readings\<close> gives what these calls return at project index \<open>i\<close> and file index \<open>j\<close>.
\<close>

definition mapi :: "(nat \<Rightarrow> 'a \<Rightarrow> 'b) \<Rightarrow> 'a list \<Rightarrow> 'b list" where
  "mapi g xs = map (\<lambda>(i, x). g i x) (enumerate 0 xs)"

record Readings =
  randomId :: "nat \<Rightarrow> nat \<Rightarrow> string"
  dateNow :: "nat \<Rightarrow> nat \<Rightarrow> nat"
  localeTime :: "nat \<Rightarrow> nat \<Rightarrow> string"

text \<open>
  \<open>handleAcceptFix\<close>. The guard \<open>!activeFile.stagingContent\<close> is true for an absent
  value and for the empty string. The state update then rewrites, in every project whose id
  is the current one, every file whose id is the active one.
\<close>

definition handleAcceptFix :: "Readings \<Rightarrow> App \<Rightarrow> App" where
  "handleAcceptFix rd st =
     (case activeFile st of
        None \<Rightarrow> st
      | Some af \<Rightarrow>
          (case stagingContent af of
             None \<Rightarrow> st
           | Some newContent \<Rightarrow>
               if newContent = [] then st
               else
                 (let previousContent = content af in
                  st\<lparr>projects :=
                        mapi (\<lambda>i p.
                          if Some (project_id p) = currentProjectId st then
                            p\<lparr>files :=
                                mapi (\<lambda>j f.
                                  if Some (file_id f) = activeFileId st then
                                    f\<lparr>content := newContent,
                                      stagingContent := None,
                                      analysis := None,
                                      history := Some (archive f @
                                        [\<lparr>version_id = randomId rd i j,
                                          timestamp = dateNow rd i j,
                                          version_content = previousContent,
                                          description = ''Before Fix '' @ localeTime rd i j\<rparr>])\<rparr>
                                  else f) (files p)\<rparr>
                          else p) (projects st),
                      showDiff := False,
                      toastMsg := ''Changes Applied''\<rparr>)))"

text \<open>\<open>handleRejectFix\<close> has no guard.\<close>

definition handleRejectFix :: "App \<Rightarrow> App" where
  "handleRejectFix st =
     st\<lparr>projects :=
           map (\<lambda>p.
             if Some (project_id p) = currentProjectId st then
               p\<lparr>files :=
                   map (\<lambda>f.
                     if Some (file_id f) = activeFileId st then f\<lparr>stagingContent := None\<rparr>
                     else f) (files p)\<rparr>
             else p) (projects st),
         showDiff := False,
         toastMsg := ''Changes Rejected''\<rparr>"

text \<open>
  \<open>handleRevertVersion\<close>. \<open>!currentProjectId\<close> is true for null and for the empty string.
  \<open>confirm("Revert to this version?")\<close> is asked only when the version was found; its
  answer is the parameter \<open>confirmed\<close>. The snapshot \<open>currentAsHistory\<close> is built once,
  before the update, from one \<open>Math.random()\<close> and one \<open>Date.now()\<close> reading.
\<close>

definition handleRevertVersion :: "string \<Rightarrow> nat \<Rightarrow> bool \<Rightarrow> string \<Rightarrow> App \<Rightarrow> App" where
  "handleRevertVersion newId now confirmed versionId st =
     (case activeFile st of
        None \<Rightarrow> st
      | Some af \<Rightarrow>
          if currentProjectId st = None \<or> currentProjectId st = Some [] then st
          else
            (case (case history af of
                     None \<Rightarrow> None
                   | Some h \<Rightarrow> List.find (\<lambda>v. version_id v = versionId) h) of
               None \<Rightarrow> st
             | Some versionToRestore \<Rightarrow>
                 if \<not> confirmed then st
                 else
                   (let currentAsHistory =
                          \<lparr>version_id = newId, timestamp = now,
                            version_content = content af, description = ''Before Revert''\<rparr>
                    in st\<lparr>projects :=
                             map (\<lambda>p.
                               if Some (project_id p) = currentProjectId st then
                                 p\<lparr>files :=
                                     map (\<lambda>f.
                                       if Some (file_id f) = activeFileId st then
                                         f\<lparr>content := version_content versionToRestore,
                                           analysis := None,
                                           history := Some (archive f @ [currentAsHistory])\<rparr>
                                       else f) (files p)\<rparr>
                               else p) (projects st),
                           toastMsg := ''Version Restored''\<rparr>)))"

section \<open>Named forms of the rewritten file\<close>

text \<open>
  The object literals that the update callbacks of \<open>handleAcceptFix\<close> and
  \<open>handleRevertVersion\<close> return for a matching file, as functions of that file, so that
  the lemmas about the handlers can name them.
\<close>

definition acceptFile :: "Readings \<Rightarrow> string \<Rightarrow> string \<Rightarrow> nat \<Rightarrow> nat \<Rightarrow> FileData \<Rightarrow> FileData" where
  "acceptFile rd newContent previousContent i j f =
     f\<lparr>content := newContent, stagingContent := None, analysis := None,
       history := Some (archive f @
         [\<lparr>version_id = randomId rd i j, timestamp = dateNow rd i j,
           version_content = previousContent,
           description = ''Before Fix '' @ localeTime rd i j\<rparr>])\<rparr>"

definition revertFile :: "FileVersion \<Rightarrow> FileVersion \<Rightarrow> FileData \<Rightarrow> FileData" where
  "revertFile versionToRestore currentAsHistory f =
     f\<lparr>content := version_content versionToRestore, analysis := None,
       history := Some (archive f @ [currentAsHistory])\<rparr>"

section \<open>Example states\<close>

definition fileA :: FileData where
  "fileA = \<lparr>file_id = ''f1'', name = ''a.ts'', path = ''src/a.ts'', content = ''old'',
     language = ''ts'',
     analysis = Some \<lparr>overallScore = 80, summary = ''fine'', issues = [], securityScore = 90,
       maintainabilityScore = 70, analysis_timestamp = None\<rparr>,
     isAnalyzing = None, stagingContent = Some ''new'', isFixing = Some False,
     history = Some [\<lparr>version_id = ''v0'', timestamp = 5, version_content = ''older'',
       description = ''Before Fix 9:00:00 AM''\<rparr>],
     cursor = None\<rparr>"

definition fileB :: FileData where
  "fileB = \<lparr>file_id = ''f2'', name = ''b.ts'', path = ''src/b.ts'', content = ''bbb'',
     language = ''ts'', analysis = None, isAnalyzing = None, stagingContent = Some ''b2'',
     isFixing = None, history = None, cursor = None\<rparr>"

definition project1 :: Project where
  "project1 = \<lparr>project_id = ''p1'', project_name = ''demo'', createdAt = 1,
     files = [fileA, fileB], projectAnalysis = None, project_isAnalyzing = None,
     githubUrl = None\<rparr>"

definition project2 :: Project where
  "project2 = \<lparr>project_id = ''p2'', project_name = ''other'', createdAt = 2,
     files = [fileA], projectAnalysis = None, project_isAnalyzing = None,
     githubUrl = None\<rparr>"

definition app1 :: App where
  "app1 = \<lparr>view = WORKSPACE, projects = [project1, project2],
     currentProjectId = Some ''p1'', activeFileId = Some ''f1'',
     showSidebar = True, showAnalysis = True, githubUrl_input = [], showGithubModal = False,
     loadingMsg = [], toastMsg = [], showDiff = True, chatMessages = [], alerts = []\<rparr>"

text \<open>The same state with an empty string staged for the active file.\<close>

definition app_empty_staged :: App where
  "app_empty_staged =
     app1\<lparr>projects := [project1\<lparr>files := [fileA\<lparr>stagingContent := Some []\<rparr>, fileB]\<rparr>, project2]\<rparr>"

text \<open>A state whose only project, the current one, has the empty string as its id.\<close>

definition app_empty_pid :: App where
  "app_empty_pid =
     app1\<lparr>projects := [project1\<lparr>project_id := []\<rparr>], currentProjectId := Some []\<rparr>"

definition readings1 :: Readings where
  "readings1 = \<lparr>randomId = (\<lambda>i j. ''v1''), dateNow = (\<lambda>i j. 1000),
     localeTime = (\<lambda>i j. ''10:00:00 AM'')\<rparr>"

section \<open>Repository ingestion (services/githubService.ts)\<close>

definition IGNORED_PATHS :: "string list" where
  "IGNORED_PATHS =
     [''node_modules'', ''.git'', ''dist'', ''build'', ''package-lock.json'', ''yarn.lock'',
      ''.DS_Store'', ''coverage'', ''.next'', ''.vscode'', ''__pycache__'', ''.idea'']"

datatype ItemType = Blob | Tree

record GithubTreeItem =
  item_path :: string
  item_mode :: string
  item_type :: ItemType
  item_sha :: string
  item_size :: "nat option"
  item_url :: string

subsection \<open>String operations of the platform\<close>

text \<open>
  \<open>s.includes(sub)\<close>, \<open>s.split(sep)\<close> for a one-character separator (the result is
  never empty: \<open>"".split(".")\<close> is \<open>[""]\<close>), \<open>xs.pop()\<close> as an expression (undefined on
  an empty array) and \<open>a || b\<close> for a possibly undefined string \<open>a\<close>, which yields \<open>b\<close>
  when \<open>a\<close> is undefined or empty.
\<close>

fun startsWith :: "string \<Rightarrow> string \<Rightarrow> bool" where
  "startsWith s [] = True"
| "startsWith [] (c # cs) = False"
| "startsWith (x # xs) (c # cs) = (x = c \<and> startsWith xs cs)"

fun js_includes :: "string \<Rightarrow> string \<Rightarrow> bool" where
  "js_includes [] sub = (sub = [])"
| "js_includes (x # xs) sub = (startsWith (x # xs) sub \<or> js_includes xs sub)"

fun js_split :: "char \<Rightarrow> string \<Rightarrow> string list" where
  "js_split sep [] = [[]]"
| "js_split sep (c # cs) =
     (if c = sep then [] # js_split sep cs
      else (case js_split sep cs of [] \<Rightarrow> [[c]] | w # ws \<Rightarrow> (c # w) # ws))"

definition js_pop :: "'a list \<Rightarrow> 'a option" where
  "js_pop xs = (if xs = [] then None else Some (last xs))"

definition js_or :: "string option \<Rightarrow> string \<Rightarrow> string" where
  "js_or a b = (case a of None \<Rightarrow> b | Some s \<Rightarrow> if s = [] then b else s)"

subsection \<open>The network\<close>

text \<open>
  What \<open>await fetch(url)\<close> and the reading of the body give. \<open>Rejected\<close>: the promise of
  \<open>fetch\<close> rejects (network failure, CORS). \<open>Response ok body\<close>: a response with that
  \<open>ok\<close> flag; \<open>body\<close> is \<open>None\<close> when reading it fails, that is when \<open>json()\<close> or
  \<open>text()\<close> rejects or the JSON lacks the field the code reads (\<open>tree\<close> of the tree
  listing, \<open>content\<close> of a blob), which raises a TypeError at the first use. The body of
  the repository lookup is its \<open>default_branch\<close>, the body of a blob its \<open>content\<close>.

  A network answers the four requests of the code, identified by what their URLs are built
  from: \<open>/repos/owner/repo\<close>, \<open>/repos/owner/repo/git/trees/branch?recursive=1\<close>, the raw
  URL \<open>owner/repo/branch/path\<close>, and the blob URL of a tree entry. \<open>atob\<close> is the
  platform's base64 decoder, \<open>None\<close> where it throws.
\<close>

datatype 'a Response = Rejected | Response bool "'a option"

record Network =
  fetchRepo :: "string \<Rightarrow> string \<Rightarrow> string Response"
  fetchTree :: "string \<Rightarrow> string \<Rightarrow> string \<Rightarrow> GithubTreeItem list Response"
  fetchRaw :: "string \<Rightarrow> string \<Rightarrow> string \<Rightarrow> string \<Rightarrow> string Response"
  fetchBlob :: "string \<Rightarrow> string Response"
  atob :: "string \<Rightarrow> string option"

text \<open>
  The errors \<open>fetchGithubRepo\<close> throws. The first three are its own:
  \<open>Error("Repository not found or private")\<close>, \<open>Error("Failed to fetch repository tree")\<close>
  and \<open>Error("No readable source files found in repository.")\<close>. The other two are the
  platform's, for a rejected fetch and for a body that cannot be read.
\<close>

datatype IngestError =
  RepositoryNotFound | TreeFetchError | NoReadableFiles | FetchRejected | BodyUnreadable

subsection \<open>fetchGithubRepo\<close>

text \<open>Step 3, the chain \<open>.filter(...).filter(...).slice(0, 30)\<close>.\<close>

definition filesToFetch :: "GithubTreeItem list \<Rightarrow> GithubTreeItem list" where
  "filesToFetch tree =
     take 30
       (filter (\<lambda>item. \<not> list_ex (\<lambda>ignored. js_includes (item_path item) ignored) IGNORED_PATHS)
         (filter (\<lambda>item. item_type item = Blob) tree))"

text \<open>
  Step 4, the body of the callback given to \<open>filesToFetch.map\<close>, for one entry. \<open>fetched\<close>
  is the value of \<open>content\<close> when control reaches \<open>if (content)\<close>, and \<open>None\<close> when an
  exception reaches the outer \<open>catch\<close> instead, which only logs it. The inner \<open>catch\<close> is
  entered when the raw fetch rejects, when its status is not ok and when \<open>text()\<close> rejects.
  In the fallback a status that is not ok leaves \<open>content\<close> at its initial \<open>''\<close>.
  The result is the record the callback pushes, if it pushes one.
\<close>

definition fetchItem :: "Network \<Rightarrow> string \<Rightarrow> string \<Rightarrow> string \<Rightarrow> GithubTreeItem \<Rightarrow> FileData option" where
  "fetchItem net owner repo defaultBranch item =
     (let extension = js_or (js_pop (js_split CHR ''.'' (item_path item))) ''text'';
          fetched =
            (case fetchRaw net owner repo defaultBranch (item_path item) of
               Response True (Some body) \<Rightarrow> Some body
             | _ \<Rightarrow>
                 (case fetchBlob net (item_url item) of
                    Rejected \<Rightarrow> None
                  | Response False _ \<Rightarrow> Some []
                  | Response True None \<Rightarrow> None
                  | Response True (Some encoded) \<Rightarrow>
                      atob net (filter (\<lambda>c. c \<noteq> CHR 0x0A) encoded)))
      in case fetched of
           None \<Rightarrow> None
         | Some fetchedContent \<Rightarrow>
             if fetchedContent = [] then None
             else Some \<lparr>file_id = item_sha item,
                        name = js_or (js_pop (js_split CHR ''/'' (item_path item))) (item_path item),
                        path = item_path item,
                        content = fetchedContent,
                        language = extension,
                        analysis = None, isAnalyzing = None, stagingContent = None,
                        isFixing = None, history = None, cursor = None\<rparr>)"

text \<open>
  The whole function. The callbacks of step 4 run concurrently and each pushes its record
  onto \<open>fetchedFiles\<close> when its own fetches have settled; JavaScript runs one callback
  continuation at a time, so the pushes happen one after the other, in the order in which
  the callbacks complete. \<open>completion\<close> is that order, as indices into \<open>filesToFetch\<close>
  (a permutation of \<open>[0..<length filesToFetch]\<close> in any real run).
\<close>

definition fetchGithubRepo :: "Network \<Rightarrow> nat list \<Rightarrow> string \<Rightarrow> string \<Rightarrow> IngestError + FileData list" where
  "fetchGithubRepo net completion owner repo =
     (case fetchRepo net owner repo of
        Rejected \<Rightarrow> Inl FetchRejected
      | Response False _ \<Rightarrow> Inl RepositoryNotFound
      | Response True None \<Rightarrow> Inl BodyUnreadable
      | Response True (Some defaultBranch) \<Rightarrow>
          (case fetchTree net owner repo defaultBranch of
             Rejected \<Rightarrow> Inl FetchRejected
           | Response False _ \<Rightarrow> Inl TreeFetchError
           | Response True None \<Rightarrow> Inl BodyUnreadable
           | Response True (Some tree) \<Rightarrow>
               if length (filesToFetch tree) = 0 then Inl NoReadableFiles
               else Inr (List.map_filter
                      (\<lambda>i. case js_index (filesToFetch tree) i of
                             None \<Rightarrow> None
                           | Some item \<Rightarrow> fetchItem net owner repo defaultBranch item)
                      completion)))"

subsection \<open>Importing a repository (App.tsx)\<close>

text \<open>
  \<open>parseGithubUrl\<close> relies on the platform's URL parser: \<open>pathname\<close> gives the path of a
  URL, \<open>None\<close> where \<open>new URL(url)\<close> throws. \<open>Platform\<close> also holds what
  \<open>Math.random().toString(36).substr(2, 9)\<close>, \<open>Date.now()\<close> and \<open>window.innerWidth\<close> give
  when \<open>createProject\<close> runs, and the message of a platform error.
\<close>

record Platform =
  pathname :: "string \<Rightarrow> string option"
  newProjectId :: string
  clock :: nat
  innerWidth :: nat
  platformMessage :: "IngestError \<Rightarrow> string"

definition parseGithubUrl :: "Platform \<Rightarrow> string \<Rightarrow> (string \<times> string) option" where
  "parseGithubUrl pf url =
     (case pathname pf url of
        None \<Rightarrow> None
      | Some pn \<Rightarrow>
          (let parts = filter (\<lambda>s. s \<noteq> []) (js_split CHR ''/'' pn) in
           if length parts < 2 then None else Some (parts ! 0, parts ! 1)))"

definition createProject :: "Platform \<Rightarrow> string \<Rightarrow> FileData list \<Rightarrow> string option \<Rightarrow> App \<Rightarrow> App" where
  "createProject pf projectName fs url st =
     (let newProject =
            \<lparr>project_id = newProjectId pf, project_name = projectName, createdAt = clock pf,
              files = fs, projectAnalysis = None, project_isAnalyzing = None, githubUrl = url\<rparr>
      in st\<lparr>projects := newProject # projects st,
            currentProjectId := Some (project_id newProject),
            activeFileId := (if length fs > 0 then Some (file_id (fs ! 0)) else activeFileId st),
            view := WORKSPACE,
            chatMessages := [],
            showSidebar := \<not> innerWidth pf < 768,
            showAnalysis := \<not> innerWidth pf < 768,
            toastMsg := ''Project created successfully''\<rparr>)"

definition errorMessage :: "Platform \<Rightarrow> IngestError \<Rightarrow> string" where
  "errorMessage pf e =
     (case e of
        RepositoryNotFound \<Rightarrow> ''Repository not found or private''
      | TreeFetchError \<Rightarrow> ''Failed to fetch repository tree''
      | NoReadableFiles \<Rightarrow> ''No readable source files found in repository.''
      | _ \<Rightarrow> platformMessage pf e)"

text \<open>
  \<open>handleGithubImport\<close>, from the call to the end of its \<open>finally\<close> block: the loading
  message set at the start is cleared again on both paths.
\<close>

definition handleGithubImport :: "Platform \<Rightarrow> Network \<Rightarrow> nat list \<Rightarrow> App \<Rightarrow> App" where
  "handleGithubImport pf net completion st =
     (case parseGithubUrl pf (githubUrl_input st) of
        None \<Rightarrow> st\<lparr>alerts := alerts st @ [''Invalid GitHub URL.'']\<rparr>
      | Some (owner, repo) \<Rightarrow>
          (case fetchGithubRepo net completion owner repo of
             Inl e \<Rightarrow>
               st\<lparr>alerts := alerts st @ [''Import Failed: '' @ errorMessage pf e],
                  loadingMsg := []\<rparr>
           | Inr fetchedFiles \<Rightarrow>
               (createProject pf (owner @ ''/'' @ repo) fetchedFiles (Some (githubUrl_input st)) st)
                 \<lparr>showGithubModal := False, githubUrl_input := [], loadingMsg := []\<rparr>))"

section \<open>The selection of step 3 in the words of the specification\<close>

text \<open>
  An entry survives when it is a blob and its path contains none of the denylisted
  substrings; the specification selects the first 30 survivors in tree order.
\<close>

definition survives :: "GithubTreeItem \<Rightarrow> bool" where
  "survives e \<longleftrightarrow>
     item_type e = Blob \<and> (\<forall>ignored\<in>set IGNORED_PATHS. \<not> js_includes (item_path e) ignored)"

section \<open>Example trees, networks and platform\<close>

text \<open>A blob entry with the given path; hash and URL are derived from the path.\<close>

definition blob :: "string \<Rightarrow> GithubTreeItem" where
  "blob p = \<lparr>item_path = p, item_mode = ''100644'', item_type = Blob, item_sha = ''sha-'' @ p,
     item_size = None, item_url = ''https://api.github.com/blob/'' @ p\<rparr>"

text \<open>Forty-five survivors with distinct paths: \<open>src/f\<close>, \<open>src/fx\<close>, \<open>src/fxx\<close>, ...\<close>

definition tree45 :: "GithubTreeItem list" where
  "tree45 = map (\<lambda>n. blob (''src/f'' @ replicate n CHR ''x'')) [0..<45]"

text \<open>
  The end-to-end scenario of the specification: default branch \<open>main\<close>, one blob
  \<open>README.md\<close> whose raw content is \<open># Hello\<close>. The variations change one answer each.
\<close>

definition net_readme :: Network where
  "net_readme =
     \<lparr>fetchRepo = (\<lambda>owner repo. Response True (Some ''main'')),
      fetchTree = (\<lambda>owner repo branch. Response True (Some [blob ''README.md''])),
      fetchRaw = (\<lambda>owner repo branch p.
         if p = ''README.md'' then Response True (Some ''# Hello'') else Response False None),
      fetchBlob = (\<lambda>url. Rejected),
      atob = (\<lambda>encoded. None)\<rparr>"

definition net_two :: Network where
  "net_two =
     net_readme\<lparr>fetchTree := (\<lambda>owner repo branch. Response True (Some [blob ''a.ts'', blob ''b.ts''])),
       fetchRaw := (\<lambda>owner repo branch p. Response True (Some (''// '' @ p)))\<rparr>"

definition net_makefile :: Network where
  "net_makefile =
     net_readme\<lparr>fetchTree := (\<lambda>owner repo branch. Response True (Some [blob ''Makefile''])),
       fetchRaw := (\<lambda>owner repo branch p. Response True (Some ''all:''))\<rparr>"

definition net_404 :: Network where
  "net_404 = net_readme\<lparr>fetchRepo := (\<lambda>owner repo. Response False None)\<rparr>"

definition net_tree_500 :: Network where
  "net_tree_500 = net_readme\<lparr>fetchTree := (\<lambda>owner repo branch. Response False None)\<rparr>"

definition net_ignored :: Network where
  "net_ignored =
     net_readme\<lparr>fetchTree := (\<lambda>owner repo branch.
       Response True (Some [blob ''node_modules/a.js'', blob ''.git/HEAD'']))\<rparr>"

definition net_empty_raw :: Network where
  "net_empty_raw =
     net_readme\<lparr>fetchRaw := (\<lambda>owner repo branch p. Response True (Some [])),
       fetchBlob := (\<lambda>url. Response True (Some ''SGk='')),
       atob := (\<lambda>encoded. Some ''Hi'')\<rparr>"

definition platform1 :: Platform where
  "platform1 =
     \<lparr>pathname = (\<lambda>url. if url = ''https://github.com/octo/demo'' then Some ''/octo/demo''
                          else None),
      newProjectId = ''p9'', clock = 7, innerWidth = 1024,
      platformMessage = (\<lambda>e. ''Failed to fetch'')\<rparr>"

definition app_import :: App where
  "app_import = app1\<lparr>githubUrl_input := ''https://github.com/octo/demo'', showGithubModal := True\<rparr>"

section \<open>Properties of the edit history\<close>

subsection \<open>Invariant and round trip\<close>

lemma initEditor_at_tail: "at_tail (initEditor c)"
  by (simp add: at_tail_def valid_editor_def initEditor_def)

lemma handleChange_at_tail: "at_tail s \<Longrightarrow> at_tail (handleChange x s)"
  by (auto simp: at_tail_def valid_editor_def handleChange_def js_index_def Let_def nth_append)

lemma foldl_handleChange_at_tail:
  "at_tail s \<Longrightarrow> at_tail (foldl (\<lambda>s x. handleChange x s) s xs)"
  by (induction xs arbitrary: s) (simp_all add: handleChange_at_tail)

lemma recordEdits_at_tail: "at_tail (recordEdits c xs)"
  unfolding recordEdits_def by (rule foldl_handleChange_at_tail [OF initEditor_at_tail])

lemma handleChange_valid: "valid_editor (handleChange x s)"
  by (auto simp: valid_editor_def handleChange_def js_index_def Let_def nth_append min_def)

lemma handleUndo_valid: "valid_editor s \<Longrightarrow> valid_editor (handleUndo s)"
  by (auto simp: valid_editor_def handleUndo_def js_index_def Let_def)

lemma handleRedo_valid: "valid_editor s \<Longrightarrow> valid_editor (handleRedo s)"
  by (auto simp: valid_editor_def handleRedo_def js_index_def Let_def)

lemma undo_redo_valid:
  assumes "valid_editor s" and "historyPtr s > 0"
  shows "handleRedo (handleUndo s) = s"
  using assms
  by (cases s) (auto simp: valid_editor_def handleUndo_def handleRedo_def js_index_def Let_def)

lemma undo_at_zero: "historyPtr s = 0 \<Longrightarrow> handleUndo s = s"
  by (simp add: handleUndo_def)

lemma redo_at_last:
  "int (historyPtr s) = int (length (editHistory s)) - 1 \<Longrightarrow> handleRedo s = s"
  by (simp add: handleRedo_def)

text \<open>
  C2. After any run of \<open>handleChange\<close> calls from the initial state (with distinct
  contents or not), undo followed at once by redo gives back the whole editor state, so in
  particular the content on display. With the pointer at 0 undo changes nothing, and with
  the pointer at the last index redo changes nothing: sequence, pointer and content stay.
\<close>

theorem undo_redo_roundtrip:
  "handleRedo (handleUndo (recordEdits c xs)) = recordEdits c xs
   \<and> code (handleRedo (handleUndo (recordEdits c xs))) = code (recordEdits c xs)
   \<and> (historyPtr s = 0 \<longrightarrow> handleUndo s = s)
   \<and> (int (historyPtr s) = int (length (editHistory s)) - 1 \<longrightarrow> handleRedo s = s)"
proof -
  let ?r = "recordEdits c xs"
  have tail: "at_tail ?r" by (rule recordEdits_at_tail)
  have round: "handleRedo (handleUndo ?r) = ?r"
  proof (cases "historyPtr ?r > 0")
    case True
    with tail show ?thesis by (simp add: at_tail_def undo_redo_valid)
  next
    case False
    then have z: "historyPtr ?r = 0" by simp
    then have "handleUndo ?r = ?r" by (rule undo_at_zero)
    moreover from tail z have "int (historyPtr ?r) = int (length (editHistory ?r)) - 1"
      by (simp add: at_tail_def)
    then have "handleRedo ?r = ?r" by (rule redo_at_last)
    ultimately show ?thesis by simp
  qed
  show ?thesis
    using round undo_at_zero [of s] redo_at_last [of s] by simp
qed

theorem undo_redo_roundtrip_witness:
  "distinct [''a'', ''b'', ''c'']
   \<and> code (recordEdits ''a'' [''b'', ''c'']) = Some ''c''
   \<and> code (handleUndo (recordEdits ''a'' [''b'', ''c''])) = Some ''b''
   \<and> code (handleRedo (handleUndo (recordEdits ''a'' [''b'', ''c'']))) = Some ''c''
   \<and> historyPtr (initEditor ''a'') = 0
   \<and> handleUndo (initEditor ''a'') = initEditor ''a''
   \<and> int (historyPtr (initEditor ''a'')) = int (length (editHistory (initEditor ''a''))) - 1
   \<and> handleRedo (initEditor ''a'') = initEditor ''a''"
  using undo_redo_roundtrip [of "''a''" "[''b'', ''c'']" "initEditor ''a''"]
  by (simp add: recordEdits_def initEditor_def handleChange_def handleUndo_def js_index_def Let_def)

subsection \<open>Recording the same content twice\<close>

lemma handleChange_idem: "handleChange x (handleChange x s) = handleChange x s"
  by (cases s) (auto simp: handleChange_def js_index_def Let_def nth_append min_def)

lemma handleChange_differs:
  assumes "js_index (editHistory s) (historyPtr s) \<noteq> Some x"
  shows "editHistory (handleChange x s) = take (historyPtr s + 1) (editHistory s) @ [x]"
    and "historyPtr (handleChange x s) = length (editHistory (handleChange x s)) - 1"
    and "code (handleChange x s) = Some x"
  using assms by (auto simp: handleChange_def Let_def)

lemma handleChange_same:
  assumes "js_index (editHistory s) (historyPtr s) = Some x"
  shows "handleChange x s = s\<lparr>code := Some x\<rparr>"
  using assms by (simp add: handleChange_def Let_def)

text \<open>
  C8 (as amended). The second of two \<open>handleChange x\<close> calls in a row changes nothing. When
  \<open>x\<close> differs from the entry at the pointer, the first call leaves the sequence equal to
  its prefix up to and including the pointer, followed by \<open>x\<close>, and the pointer at the new
  tail; the sequence then has \<open>min (historyPtr + 1) length + 1\<close> entries, which is one more
  than before when no entry lay beyond the pointer. When \<open>x\<close> equals the entry at the
  pointer, sequence and pointer stay as they were.
\<close>

theorem record_edit_twice:
  "handleChange x (handleChange x s) = handleChange x s
   \<and> (js_index (editHistory s) (historyPtr s) \<noteq> Some x \<longrightarrow>
        editHistory (handleChange x (handleChange x s))
          = take (historyPtr s + 1) (editHistory s) @ [x]
        \<and> historyPtr (handleChange x (handleChange x s))
          = length (editHistory (handleChange x (handleChange x s))) - 1
        \<and> length (editHistory (handleChange x (handleChange x s)))
          = min (historyPtr s + 1) (length (editHistory s)) + 1
        \<and> (length (editHistory s) \<le> historyPtr s + 1 \<longrightarrow>
             length (editHistory (handleChange x (handleChange x s)))
               = length (editHistory s) + 1))
   \<and> (js_index (editHistory s) (historyPtr s) = Some x \<longrightarrow>
        editHistory (handleChange x (handleChange x s)) = editHistory s
        \<and> historyPtr (handleChange x (handleChange x s)) = historyPtr s)"
proof -
  have idem: "handleChange x (handleChange x s) = handleChange x s"
    by (rule handleChange_idem)
  have differs: "editHistory (handleChange x s) = take (historyPtr s + 1) (editHistory s) @ [x]
      \<and> historyPtr (handleChange x s) = length (editHistory (handleChange x s)) - 1"
    if "js_index (editHistory s) (historyPtr s) \<noteq> Some x"
    using handleChange_differs [OF that] by simp
  have same: "editHistory (handleChange x s) = editHistory s
      \<and> historyPtr (handleChange x s) = historyPtr s"
    if "js_index (editHistory s) (historyPtr s) = Some x"
    using handleChange_same [OF that] by simp
  show ?thesis
    unfolding idem using differs same by (auto simp: min_def)
qed

theorem record_edit_twice_witness:
  "js_index (editHistory (recordEdits ''a'' [''b''])) (historyPtr (recordEdits ''a'' [''b'']))
     \<noteq> Some ''c''
   \<and> length (editHistory (recordEdits ''a'' [''b''])) = 2
   \<and> editHistory (handleChange ''c'' (handleChange ''c'' (recordEdits ''a'' [''b''])))
     = [''a'', ''b'', ''c'']
   \<and> historyPtr (handleChange ''c'' (handleChange ''c'' (recordEdits ''a'' [''b'']))) = 2
   \<and> js_index (editHistory (recordEdits ''a'' [''b''])) (historyPtr (recordEdits ''a'' [''b'']))
     = Some ''b''
   \<and> editHistory (handleChange ''b'' (handleChange ''b'' (recordEdits ''a'' [''b''])))
     = [''a'', ''b'']"
  using record_edit_twice [of "''c''" "recordEdits ''a'' [''b'']"]
    record_edit_twice [of "''b''" "recordEdits ''a'' [''b'']"]
  by (simp add: recordEdits_def initEditor_def handleChange_def js_index_def Let_def)

text \<open>
  The claim as stated fails where entries lie beyond the pointer. After the edits \<open>b\<close>
  and \<open>c\<close> on the initial content \<open>a\<close> and two undos, the pointer is 0 in a sequence
  of three entries; recording \<open>x\<close> twice leaves two entries, not four.
\<close>

theorem record_edit_twice_counterexample:
  "editHistory (handleUndo (handleUndo (recordEdits ''a'' [''b'', ''c'']))) = [''a'', ''b'', ''c'']
   \<and> historyPtr (handleUndo (handleUndo (recordEdits ''a'' [''b'', ''c'']))) = 0
   \<and> js_index (editHistory (handleUndo (handleUndo (recordEdits ''a'' [''b'', ''c''])))) 0
       \<noteq> Some ''x''
   \<and> editHistory (handleChange ''x'' (handleChange ''x''
         (handleUndo (handleUndo (recordEdits ''a'' [''b'', ''c''])))))
       = [''a'', ''x'']
   \<and> length (editHistory (handleChange ''x'' (handleChange ''x''
         (handleUndo (handleUndo (recordEdits ''a'' [''b'', ''c'']))))))
       \<noteq> length (editHistory (handleUndo (handleUndo (recordEdits ''a'' [''b'', ''c'']))))
            + 1"
  by (simp add: recordEdits_def initEditor_def handleChange_def handleUndo_def js_index_def Let_def)

section \<open>Properties of the staged-fix workflow and the version archive\<close>

subsection \<open>Lists rewritten by a callback\<close>

lemma length_mapi: "length (mapi g xs) = length xs"
  by (simp add: mapi_def)

lemma nth_mapi: "i < length xs \<Longrightarrow> mapi g xs ! i = g i (xs ! i)"
  by (simp add: mapi_def nth_enumerate_eq)

lemma find_mapi_Some:
  assumes inv: "\<And>i x. P (g i x) = P x" and f: "List.find P xs = Some x"
  shows "\<exists>k<length xs. xs ! k = x \<and> P x \<and> List.find P (mapi g xs) = Some (g k x)"
proof -
  from f obtain k where k: "k < length xs" "P (xs ! k)" "x = xs ! k" "\<forall>j<k. \<not> P (xs ! j)"
    by (auto simp: find_Some_iff)
  have "List.find P (mapi g xs) = Some (g k x)"
    unfolding find_Some_iff
    using k inv by (intro exI [of _ k]) (simp add: length_mapi nth_mapi)
  with k show ?thesis by blast
qed

lemma find_map_inv:
  assumes inv: "\<And>x. P (g x) = P x"
  shows "List.find P (map g xs) = map_option g (List.find P xs)"
  using inv by (induction xs) auto

lemma find_Some_holds: "List.find P xs = Some x \<Longrightarrow> P x \<and> x \<in> set xs"
  by (auto simp: find_Some_iff)

lemma distinct_ids_same:
  assumes "distinct (map g xs)" and "x \<in> set xs" and "j < length xs" and "g (xs ! j) = g x"
  shows "xs ! j = x"
  using assms by (metis distinct_map inj_on_def nth_mem)

subsection \<open>Accepting a staged fix\<close>

lemma handleAcceptFix_eq:
  assumes "activeFile st = Some af" and "stagingContent af = Some s" and "s \<noteq> []"
  shows "handleAcceptFix rd st =
     st\<lparr>projects :=
          mapi (\<lambda>i p. if Some (project_id p) = currentProjectId st
                       then p\<lparr>files := mapi (\<lambda>j f. if Some (file_id f) = activeFileId st
                                  then acceptFile rd s (content af) i j f else f) (files p)\<rparr>
                       else p) (projects st),
        showDiff := False, toastMsg := ''Changes Applied''\<rparr>"
  using assms unfolding handleAcceptFix_def acceptFile_def by (simp add: Let_def)

lemma accept_current:
  assumes af: "activeFile st = Some af" and sc: "stagingContent af = Some s" and ne: "s \<noteq> []"
    and p: "currentProject st = Some p"
  shows "\<exists>i. currentProject (handleAcceptFix rd st) =
           Some (p\<lparr>files := mapi (\<lambda>j f. if Some (file_id f) = activeFileId st
                    then acceptFile rd s (content af) i j f else f) (files p)\<rparr>)"
proof -
  let ?G = "\<lambda>i p. if Some (project_id p) = currentProjectId st
      then p\<lparr>files := mapi (\<lambda>j f. if Some (file_id f) = activeFileId st
              then acceptFile rd s (content af) i j f else f) (files p)\<rparr>
      else p"
  have "\<exists>i<length (projects st). projects st ! i = p \<and> Some (project_id p) = currentProjectId st
      \<and> List.find (\<lambda>p. Some (project_id p) = currentProjectId st) (mapi ?G (projects st))
          = Some (?G i p)"
    using p unfolding currentProject_def
    by (intro find_mapi_Some) auto
  then obtain i where "Some (project_id p) = currentProjectId st"
    "List.find (\<lambda>p. Some (project_id p) = currentProjectId st) (mapi ?G (projects st))
          = Some (?G i p)" by blast
  then have "currentProject (handleAcceptFix rd st) =
           Some (p\<lparr>files := mapi (\<lambda>j f. if Some (file_id f) = activeFileId st
                    then acceptFile rd s (content af) i j f else f) (files p)\<rparr>)"
    unfolding handleAcceptFix_eq [OF af sc ne] by (simp add: currentProject_def)
  then show ?thesis by blast
qed

lemma active_in_current:
  assumes "activeFile st = Some af"
  shows "\<exists>p. currentProject st = Some p
    \<and> List.find (\<lambda>f. Some (file_id f) = activeFileId st) (files p) = Some af
    \<and> af \<in> set (files p) \<and> Some (file_id af) = activeFileId st"
  using assms by (auto simp: activeFile_def find_Some_iff split: option.splits)

lemma accept_active:
  assumes af: "activeFile st = Some af" and sc: "stagingContent af = Some s" and ne: "s \<noteq> []"
  shows "\<exists>i j. activeFile (handleAcceptFix rd st) = Some (acceptFile rd s (content af) i j af)"
proof -
  from active_in_current [OF af] obtain p where p: "currentProject st = Some p"
    and fa: "List.find (\<lambda>f. Some (file_id f) = activeFileId st) (files p) = Some af"
    by blast
  from accept_current [OF af sc ne p] obtain i where
    i: "currentProject (handleAcceptFix rd st) =
           Some (p\<lparr>files := mapi (\<lambda>j f. if Some (file_id f) = activeFileId st
                    then acceptFile rd s (content af) i j f else f) (files p)\<rparr>)" by blast
  let ?F = "\<lambda>j f. if Some (file_id f) = activeFileId st
                        then acceptFile rd s (content af) i j f else f"
  have "\<exists>j<length (files p). files p ! j = af \<and> Some (file_id af) = activeFileId st
      \<and> List.find (\<lambda>f. Some (file_id f) = activeFileId st) (mapi ?F (files p))
          = Some (?F j af)"
    using fa by (intro find_mapi_Some) (auto simp: acceptFile_def)
  then obtain j where j: "Some (file_id af) = activeFileId st"
    "List.find (\<lambda>f. Some (file_id f) = activeFileId st) (mapi ?F (files p))
          = Some (?F j af)" by blast
  have a: "activeFileId (handleAcceptFix rd st) = activeFileId st"
    unfolding handleAcceptFix_eq [OF af sc ne] by simp
  have "activeFile (handleAcceptFix rd st) = Some (acceptFile rd s (content af) i j af)"
    using i j by (simp add: activeFile_def a)
  then show ?thesis by blast
qed

lemma accept_frame:
  assumes af: "activeFile st = Some af" and sc: "stagingContent af = Some s" and ne: "s \<noteq> []"
    and i: "i < length (projects st)"
  shows "\<exists>fs. projects (handleAcceptFix rd st) ! i = (projects st ! i)\<lparr>files := fs\<rparr>
     \<and> length fs = length (files (projects st ! i))
     \<and> (\<forall>j<length fs. Some (project_id (projects st ! i)) = currentProjectId st
            \<and> Some (file_id (files (projects st ! i) ! j)) = activeFileId st
          \<or> fs ! j = files (projects st ! i) ! j)"
proof (cases "Some (project_id (projects st ! i)) = currentProjectId st")
  case True
  let ?fs = "mapi (\<lambda>j f. if Some (file_id f) = activeFileId st
                    then acceptFile rd s (content af) i j f else f) (files (projects st ! i))"
  have "projects (handleAcceptFix rd st) ! i = (projects st ! i)\<lparr>files := ?fs\<rparr>"
    unfolding handleAcceptFix_eq [OF af sc ne] using i True by (simp add: nth_mapi)
  moreover have "length ?fs = length (files (projects st ! i))" by (simp add: length_mapi)
  moreover have "\<forall>j<length ?fs. Some (project_id (projects st ! i)) = currentProjectId st
            \<and> Some (file_id (files (projects st ! i) ! j)) = activeFileId st
          \<or> ?fs ! j = files (projects st ! i) ! j"
    using True by (simp add: length_mapi nth_mapi)
  ultimately show ?thesis by blast
next
  case False
  have "projects (handleAcceptFix rd st) ! i = (projects st ! i)\<lparr>files := files (projects st ! i)\<rparr>"
    unfolding handleAcceptFix_eq [OF af sc ne] using i False by (simp add: nth_mapi)
  then show ?thesis by blast
qed

lemma accept_others:
  assumes af: "activeFile st = Some af" and sc: "stagingContent af = Some s" and ne: "s \<noteq> []"
    and p: "currentProject st = Some p" and d: "distinct (map file_id (files p))"
  shows "\<exists>p'. currentProject (handleAcceptFix rd st) = Some p'
     \<and> length (files p') = length (files p)
     \<and> (\<forall>j<length (files p). files p ! j = af \<or> files p' ! j = files p ! j)"
proof -
  from accept_current [OF af sc ne p] obtain i where
    i: "currentProject (handleAcceptFix rd st) =
           Some (p\<lparr>files := mapi (\<lambda>j f. if Some (file_id f) = activeFileId st
                    then acceptFile rd s (content af) i j f else f) (files p)\<rparr>)" by blast
  from active_in_current [OF af] p have mem: "af \<in> set (files p)"
    and aid: "Some (file_id af) = activeFileId st" by auto
  have "files p ! j = af" if "j < length (files p)" "Some (file_id (files p ! j)) = activeFileId st" for j
    using distinct_ids_same [OF d mem that(1)] that(2) aid by (metis option.inject)
  then show ?thesis
    unfolding i by (auto simp: length_mapi nth_mapi)
qed

text \<open>
  C1 (as amended). When the active file has a non-empty staged content \<open>s\<close>, accepting
  the fix turns the active file into the same record with content \<open>s\<close>, no staged
  content, no cached analysis and an archive that is the old archive followed by exactly one
  new snapshot; the snapshot holds the content from before the accept and is described as
  \<open>Before Fix\<close> with the time. The number of projects and of files stays; a file is
  changed only if its id is the active one and its project's id the current one. So when
  the ids of the files of the current project are distinct, every file of the project other
  than the active one is unchanged.
\<close>

theorem accept_fix:
  assumes af: "activeFile st = Some af" and sc: "stagingContent af = Some s" and ne: "s \<noteq> []"
  shows "(\<exists>i j v. v = \<lparr>version_id = randomId rd i j, timestamp = dateNow rd i j,
                       version_content = content af,
                       description = ''Before Fix '' @ localeTime rd i j\<rparr>
            \<and> activeFile (handleAcceptFix rd st)
                = Some (af\<lparr>content := s, stagingContent := None, analysis := None,
                           history := Some (archive af @ [v])\<rparr>))
     \<and> length (projects (handleAcceptFix rd st)) = length (projects st)
     \<and> (\<forall>i<length (projects st). \<exists>fs.
           projects (handleAcceptFix rd st) ! i = (projects st ! i)\<lparr>files := fs\<rparr>
           \<and> length fs = length (files (projects st ! i))
           \<and> (\<forall>j<length fs. Some (project_id (projects st ! i)) = currentProjectId st
                  \<and> Some (file_id (files (projects st ! i) ! j)) = activeFileId st
                \<or> fs ! j = files (projects st ! i) ! j))
     \<and> (\<forall>p. currentProject st = Some p \<and> distinct (map file_id (files p)) \<longrightarrow>
           (\<exists>p'. currentProject (handleAcceptFix rd st) = Some p'
              \<and> length (files p') = length (files p)
              \<and> (\<forall>j<length (files p). files p ! j = af \<or> files p' ! j = files p ! j)))"
proof -
  have a: "\<exists>i j v. v = \<lparr>version_id = randomId rd i j, timestamp = dateNow rd i j,
                       version_content = content af,
                       description = ''Before Fix '' @ localeTime rd i j\<rparr>
            \<and> activeFile (handleAcceptFix rd st)
                = Some (af\<lparr>content := s, stagingContent := None, analysis := None,
                           history := Some (archive af @ [v])\<rparr>)"
    using accept_active [OF af sc ne, of rd] unfolding acceptFile_def by blast
  have b: "length (projects (handleAcceptFix rd st)) = length (projects st)"
    unfolding handleAcceptFix_eq [OF af sc ne] by (simp add: length_mapi)
  show ?thesis
    using a b accept_frame [OF af sc ne, of _ rd] accept_others [OF af sc ne, of _ rd]
    by blast
qed

lemmas example_defs = fileA_def fileB_def project1_def project2_def app1_def
  app_empty_staged_def app_empty_pid_def readings1_def

lemma app1_active: "activeFile app1 = Some fileA"
  by (simp add: activeFile_def currentProject_def example_defs)

theorem accept_fix_witness:
  "activeFile app1 = Some fileA \<and> stagingContent fileA = Some ''new'' \<and> ''new'' \<noteq> []
   \<and> activeFile (handleAcceptFix readings1 app1)
       = Some (fileA\<lparr>content := ''new'', stagingContent := None, analysis := None,
            history := Some (archive fileA @
              [\<lparr>version_id = ''v1'', timestamp = 1000, version_content = ''old'',
                description = ''Before Fix 10:00:00 AM''\<rparr>])\<rparr>)
   \<and> length (archive fileA) = 1
   \<and> map files (projects (handleAcceptFix readings1 app1))
       = [[fileA\<lparr>content := ''new'', stagingContent := None, analysis := None,
            history := Some (archive fileA @
              [\<lparr>version_id = ''v1'', timestamp = 1000, version_content = ''old'',
                description = ''Before Fix 10:00:00 AM''\<rparr>])\<rparr>, fileB], [fileA]]"
  using accept_fix [of app1 fileA "''new''" readings1]
  by (simp add: handleAcceptFix_def activeFile_def currentProject_def mapi_def archive_def
      example_defs)

text \<open>
  The claim as stated fails for a file whose staged content is the empty string: the guard
  of \<open>handleAcceptFix\<close> takes it for no staged content and returns at once, so the state
  is unchanged, the staged value stays and no snapshot is added.
\<close>

theorem accept_fix_counterexample:
  "activeFile app_empty_staged = Some (fileA\<lparr>stagingContent := Some []\<rparr>)
   \<and> stagingContent (fileA\<lparr>stagingContent := Some []\<rparr>) = Some []
   \<and> handleAcceptFix readings1 app_empty_staged = app_empty_staged
   \<and> map (map stagingContent \<circ> files) (projects (handleAcceptFix readings1 app_empty_staged))
       = [[Some [], Some ''b2''], [Some ''new'']]
   \<and> map (map archive \<circ> files) (projects (handleAcceptFix readings1 app_empty_staged))
       = map (map archive \<circ> files) (projects app_empty_staged)"
  by (simp add: handleAcceptFix_def activeFile_def currentProject_def mapi_def archive_def
      example_defs)

subsection \<open>Rejecting a staged fix\<close>

lemma reject_current:
  "currentProject (handleRejectFix st) =
     map_option (\<lambda>p. p\<lparr>files := map (\<lambda>f. if Some (file_id f) = activeFileId st
                              then f\<lparr>stagingContent := None\<rparr> else f) (files p)\<rparr>)
       (currentProject st)"
proof -
  let ?G = "\<lambda>p. if Some (project_id p) = currentProjectId st
      then p\<lparr>files := map (\<lambda>f. if Some (file_id f) = activeFileId st
                              then f\<lparr>stagingContent := None\<rparr> else f) (files p)\<rparr>
      else p"
  have "List.find (\<lambda>p. Some (project_id p) = currentProjectId st) (map ?G (projects st))
      = map_option ?G (List.find (\<lambda>p. Some (project_id p) = currentProjectId st) (projects st))"
    by (rule find_map_inv) simp
  then show ?thesis
    by (cases "List.find (\<lambda>p. Some (project_id p) = currentProjectId st) (projects st)")
       (auto simp: currentProject_def handleRejectFix_def dest: find_Some_holds)
qed

lemma reject_active:
  assumes af: "activeFile st = Some af"
  shows "activeFile (handleRejectFix st) = Some (af\<lparr>stagingContent := None\<rparr>)"
proof -
  from active_in_current [OF af] obtain p where p: "currentProject st = Some p"
    and fa: "List.find (\<lambda>f. Some (file_id f) = activeFileId st) (files p) = Some af"
    and aid: "Some (file_id af) = activeFileId st"
    by blast
  let ?F = "\<lambda>f. if Some (file_id f) = activeFileId st then f\<lparr>stagingContent := None\<rparr> else f"
  have "List.find (\<lambda>f. Some (file_id f) = activeFileId st) (map ?F (files p))
      = map_option ?F (List.find (\<lambda>f. Some (file_id f) = activeFileId st) (files p))"
    by (rule find_map_inv) simp
  moreover have "activeFileId (handleRejectFix st) = activeFileId st"
    by (simp add: handleRejectFix_def)
  ultimately show ?thesis
    using p fa aid by (simp add: activeFile_def reject_current)
qed

lemma reject_frame:
  assumes i: "i < length (projects st)"
  shows "\<exists>fs. projects (handleRejectFix st) ! i = (projects st ! i)\<lparr>files := fs\<rparr>
     \<and> length fs = length (files (projects st ! i))
     \<and> (\<forall>j<length fs.
           fs ! j = (files (projects st ! i) ! j)
             \<lparr>stagingContent :=
                if Some (project_id (projects st ! i)) = currentProjectId st
                   \<and> Some (file_id (files (projects st ! i) ! j)) = activeFileId st
                then None else stagingContent (files (projects st ! i) ! j)\<rparr>
           \<and> content (fs ! j) = content (files (projects st ! i) ! j)
           \<and> history (fs ! j) = history (files (projects st ! i) ! j))"
proof (cases "Some (project_id (projects st ! i)) = currentProjectId st")
  case True
  let ?fs = "map (\<lambda>f. if Some (file_id f) = activeFileId st
                    then f\<lparr>stagingContent := None\<rparr> else f) (files (projects st ! i))"
  have "projects (handleRejectFix st) ! i = (projects st ! i)\<lparr>files := ?fs\<rparr>"
    using i True by (simp add: handleRejectFix_def)
  moreover have "length ?fs = length (files (projects st ! i))" by simp
  moreover have "\<forall>j<length ?fs.
           ?fs ! j = (files (projects st ! i) ! j)
             \<lparr>stagingContent :=
                if Some (project_id (projects st ! i)) = currentProjectId st
                   \<and> Some (file_id (files (projects st ! i) ! j)) = activeFileId st
                then None else stagingContent (files (projects st ! i) ! j)\<rparr>
           \<and> content (?fs ! j) = content (files (projects st ! i) ! j)
           \<and> history (?fs ! j) = history (files (projects st ! i) ! j)"
    using True by simp
  ultimately show ?thesis by blast
next
  case False
  have "projects (handleRejectFix st) ! i = (projects st ! i)\<lparr>files := files (projects st ! i)\<rparr>"
    using i False by (simp add: handleRejectFix_def)
  moreover have "\<forall>j<length (files (projects st ! i)).
           files (projects st ! i) ! j = (files (projects st ! i) ! j)
             \<lparr>stagingContent :=
                if Some (project_id (projects st ! i)) = currentProjectId st
                   \<and> Some (file_id (files (projects st ! i) ! j)) = activeFileId st
                then None else stagingContent (files (projects st ! i) ! j)\<rparr>"
    using False by simp
  ultimately show ?thesis by blast
qed

text \<open>
  C7. Rejecting the staged fix leaves the number of projects and the two selectors as they
  were, and every file of every project equal to what it was except for its staged content,
  which is absent afterwards exactly for the files with the active id in the projects with
  the current id and unchanged for all others. In particular content and version archive
  of every file are as before, no snapshot is created, and the active file is the same
  record with its staged content cleared.
\<close>

theorem reject_fix:
  "length (projects (handleRejectFix st)) = length (projects st)
   \<and> currentProjectId (handleRejectFix st) = currentProjectId st
   \<and> activeFileId (handleRejectFix st) = activeFileId st
   \<and> (\<forall>i<length (projects st). \<exists>fs.
         projects (handleRejectFix st) ! i = (projects st ! i)\<lparr>files := fs\<rparr>
         \<and> length fs = length (files (projects st ! i))
         \<and> (\<forall>j<length fs.
               fs ! j = (files (projects st ! i) ! j)
                 \<lparr>stagingContent :=
                    if Some (project_id (projects st ! i)) = currentProjectId st
                       \<and> Some (file_id (files (projects st ! i) ! j)) = activeFileId st
                    then None else stagingContent (files (projects st ! i) ! j)\<rparr>
               \<and> content (fs ! j) = content (files (projects st ! i) ! j)
               \<and> history (fs ! j) = history (files (projects st ! i) ! j)))
   \<and> (\<forall>af. activeFile st = Some af \<longrightarrow>
         activeFile (handleRejectFix st) = Some (af\<lparr>stagingContent := None\<rparr>))"
proof -
  have "length (projects (handleRejectFix st)) = length (projects st)"
    "currentProjectId (handleRejectFix st) = currentProjectId st"
    "activeFileId (handleRejectFix st) = activeFileId st"
    by (simp_all add: handleRejectFix_def)
  then show ?thesis
    using reject_frame [of _ st] reject_active [of st] by blast
qed


theorem reject_fix_witness:
  "activeFile app1 = Some fileA \<and> stagingContent fileA = Some ''new''
   \<and> activeFile (handleRejectFix app1) = Some (fileA\<lparr>stagingContent := None\<rparr>)
   \<and> map files (projects (handleRejectFix app1))
       = [[fileA\<lparr>stagingContent := None\<rparr>, fileB], [fileA]]"
  using reject_fix [of app1]
  by (simp add: handleRejectFix_def activeFile_def currentProject_def example_defs)

subsection \<open>Reverting to an archived version\<close>

lemma lookup_version:
  "(case history af of None \<Rightarrow> None | Some h \<Rightarrow> List.find P h) = List.find P (archive af)"
  by (simp add: archive_def split: option.splits)

lemma handleRevertVersion_absent:
  assumes "\<forall>v\<in>set (archive af). version_id v \<noteq> versionId" and "activeFile st = Some af"
  shows "handleRevertVersion newId now confirmed versionId st = st"
proof -
  from assms(1) have "List.find (\<lambda>v. version_id v = versionId) (archive af) = None"
    by (auto simp: find_None_iff)
  with assms(2) show ?thesis
    by (simp add: handleRevertVersion_def lookup_version)
qed

lemma handleRevertVersion_declined:
  "handleRevertVersion newId now False versionId st = st"
  by (simp add: handleRevertVersion_def split: option.splits)

lemma handleRevertVersion_eq:
  assumes "activeFile st = Some af"
    and "List.find (\<lambda>v. version_id v = versionId) (archive af) = Some v"
    and "confirmed" and "currentProjectId st \<noteq> Some []"
  shows "handleRevertVersion newId now confirmed versionId st =
     st\<lparr>projects :=
          map (\<lambda>p. if Some (project_id p) = currentProjectId st
                   then p\<lparr>files := map (\<lambda>f. if Some (file_id f) = activeFileId st
                     then revertFile v \<lparr>version_id = newId, timestamp = now,
                            version_content = content af, description = ''Before Revert''\<rparr> f
                     else f) (files p)\<rparr>
                   else p) (projects st),
        toastMsg := ''Version Restored''\<rparr>"
proof -
  from active_in_current [OF assms(1)] obtain p where "currentProject st = Some p" by blast
  then have "Some (project_id p) = currentProjectId st"
    unfolding currentProject_def by (rule find_Some_holds [THEN conjunct1])
  then have "currentProjectId st \<noteq> None" by (metis option.distinct(1))
  with assms show ?thesis
    unfolding handleRevertVersion_def revertFile_def lookup_version by (auto simp: Let_def)
qed


lemma revert_current:
  assumes af: "activeFile st = Some af"
    and v: "List.find (\<lambda>v. version_id v = versionId) (archive af) = Some v"
    and c: "confirmed" and ne: "currentProjectId st \<noteq> Some []"
  shows "currentProject (handleRevertVersion newId now confirmed versionId st) =
     map_option (\<lambda>p. p\<lparr>files := map (\<lambda>f. if Some (file_id f) = activeFileId st
                     then revertFile v \<lparr>version_id = newId, timestamp = now,
                            version_content = content af, description = ''Before Revert''\<rparr> f
                     else f) (files p)\<rparr>)
       (currentProject st)"
proof -
  let ?G = "\<lambda>p. if Some (project_id p) = currentProjectId st
      then p\<lparr>files := map (\<lambda>f. if Some (file_id f) = activeFileId st
                     then revertFile v \<lparr>version_id = newId, timestamp = now,
                            version_content = content af, description = ''Before Revert''\<rparr> f
                     else f) (files p)\<rparr>
      else p"
  have "List.find (\<lambda>p. Some (project_id p) = currentProjectId st) (map ?G (projects st))
      = map_option ?G (List.find (\<lambda>p. Some (project_id p) = currentProjectId st) (projects st))"
    by (rule find_map_inv) simp
  then show ?thesis
    unfolding handleRevertVersion_eq [OF af v c ne]
    by (cases "List.find (\<lambda>p. Some (project_id p) = currentProjectId st) (projects st)")
       (auto simp: currentProject_def dest: find_Some_holds)
qed

lemma revert_active:
  assumes af: "activeFile st = Some af"
    and v: "List.find (\<lambda>v. version_id v = versionId) (archive af) = Some v"
    and c: "confirmed" and ne: "currentProjectId st \<noteq> Some []"
  shows "activeFile (handleRevertVersion newId now confirmed versionId st) =
     Some (revertFile v \<lparr>version_id = newId, timestamp = now,
                            version_content = content af, description = ''Before Revert''\<rparr> af)"
proof -
  from active_in_current [OF af] obtain p where p: "currentProject st = Some p"
    and fa: "List.find (\<lambda>f. Some (file_id f) = activeFileId st) (files p) = Some af"
    and aid: "Some (file_id af) = activeFileId st"
    by blast
  let ?F = "\<lambda>f. if Some (file_id f) = activeFileId st
      then revertFile v \<lparr>version_id = newId, timestamp = now,
                            version_content = content af, description = ''Before Revert''\<rparr> f
      else f"
  have "List.find (\<lambda>f. Some (file_id f) = activeFileId st) (map ?F (files p))
      = map_option ?F (List.find (\<lambda>f. Some (file_id f) = activeFileId st) (files p))"
    by (rule find_map_inv) (simp add: revertFile_def)
  moreover have "activeFileId (handleRevertVersion newId now confirmed versionId st)
      = activeFileId st"
    unfolding handleRevertVersion_eq [OF af v c ne] by simp
  ultimately show ?thesis
    using p fa aid by (simp add: activeFile_def revert_current [OF af v c ne])
qed

lemma revert_frame:
  assumes af: "activeFile st = Some af"
    and v: "List.find (\<lambda>v. version_id v = versionId) (archive af) = Some v"
    and c: "confirmed" and ne: "currentProjectId st \<noteq> Some []"
    and i: "i < length (projects st)"
  shows "\<exists>fs. projects (handleRevertVersion newId now confirmed versionId st) ! i
         = (projects st ! i)\<lparr>files := fs\<rparr>
     \<and> length fs = length (files (projects st ! i))
     \<and> (\<forall>j<length fs.
          (Some (project_id (projects st ! i)) = currentProjectId st
            \<and> Some (file_id (files (projects st ! i) ! j)) = activeFileId st
           \<or> fs ! j = files (projects st ! i) ! j)
          \<and> (\<exists>ext. archive (fs ! j) = archive (files (projects st ! i) ! j) @ ext))"
proof (cases "Some (project_id (projects st ! i)) = currentProjectId st")
  case True
  let ?fs = "map (\<lambda>f. if Some (file_id f) = activeFileId st
      then revertFile v \<lparr>version_id = newId, timestamp = now,
                            version_content = content af, description = ''Before Revert''\<rparr> f
      else f) (files (projects st ! i))"
  have "projects (handleRevertVersion newId now confirmed versionId st) ! i
      = (projects st ! i)\<lparr>files := ?fs\<rparr>"
    unfolding handleRevertVersion_eq [OF af v c ne] using i True by simp
  moreover have "length ?fs = length (files (projects st ! i))" by simp
  moreover have "\<forall>j<length ?fs.
          (Some (project_id (projects st ! i)) = currentProjectId st
            \<and> Some (file_id (files (projects st ! i) ! j)) = activeFileId st
           \<or> ?fs ! j = files (projects st ! i) ! j)
          \<and> (\<exists>ext. archive (?fs ! j) = archive (files (projects st ! i) ! j) @ ext)"
    using True by (simp add: revertFile_def archive_def)
  ultimately show ?thesis by blast
next
  case False
  have "projects (handleRevertVersion newId now confirmed versionId st) ! i
      = (projects st ! i)\<lparr>files := files (projects st ! i)\<rparr>"
    unfolding handleRevertVersion_eq [OF af v c ne] using i False by simp
  then show ?thesis by fastforce
qed

lemma revert_others:
  assumes af: "activeFile st = Some af"
    and v: "List.find (\<lambda>v. version_id v = versionId) (archive af) = Some v"
    and c: "confirmed" and ne: "currentProjectId st \<noteq> Some []"
    and p: "currentProject st = Some p" and d: "distinct (map file_id (files p))"
  shows "\<exists>p'. currentProject (handleRevertVersion newId now confirmed versionId st) = Some p'
     \<and> length (files p') = length (files p)
     \<and> (\<forall>j<length (files p). files p ! j = af \<or> files p' ! j = files p ! j)"
proof -
  from active_in_current [OF af] p have mem: "af \<in> set (files p)"
    and aid: "Some (file_id af) = activeFileId st" by auto
  have "files p ! j = af" if "j < length (files p)" "Some (file_id (files p ! j)) = activeFileId st" for j
    using distinct_ids_same [OF d mem that(1)] that(2) aid by (metis option.inject)
  then show ?thesis
    unfolding revert_current [OF af v c ne] p by auto
qed

text \<open>
  C3 (as amended). For the active file: when no snapshot of its archive has the given id,
  \<open>handleRevertVersion\<close> returns the state unchanged, and so it does when the user
  declines the confirmation. When a snapshot with the id is present (\<open>v\<close> is the first
  such), the user confirms and the current project id is not the empty string, the active
  file becomes the same record with the content of \<open>v\<close>, no cached analysis and an
  archive that is the old archive followed by one new snapshot holding the content from
  before the revert, described as \<open>Before Revert\<close>. The archive of every file is
  extended at its end only, so no entry is removed; a file is changed only if its id is
  the active one in a project with the current id, and with distinct file ids in the
  current project no file other than the active one is changed.
\<close>

theorem revert_version:
  assumes af: "activeFile st = Some af"
  shows "((\<forall>v\<in>set (archive af). version_id v \<noteq> versionId) \<longrightarrow>
            handleRevertVersion newId now confirmed versionId st = st)
     \<and> (\<not> confirmed \<longrightarrow> handleRevertVersion newId now confirmed versionId st = st)
     \<and> (\<forall>v. List.find (\<lambda>v. version_id v = versionId) (archive af) = Some v
            \<and> confirmed \<and> currentProjectId st \<noteq> Some [] \<longrightarrow>
          v \<in> set (archive af) \<and> version_id v = versionId
          \<and> activeFile (handleRevertVersion newId now confirmed versionId st)
              = Some (af\<lparr>content := version_content v, analysis := None,
                   history := Some (archive af @
                     [\<lparr>version_id = newId, timestamp = now, version_content = content af,
                       description = ''Before Revert''\<rparr>])\<rparr>)
          \<and> length (projects (handleRevertVersion newId now confirmed versionId st))
              = length (projects st)
          \<and> (\<forall>i<length (projects st). \<exists>fs.
                projects (handleRevertVersion newId now confirmed versionId st) ! i
                  = (projects st ! i)\<lparr>files := fs\<rparr>
                \<and> length fs = length (files (projects st ! i))
                \<and> (\<forall>j<length fs.
                     (Some (project_id (projects st ! i)) = currentProjectId st
                       \<and> Some (file_id (files (projects st ! i) ! j)) = activeFileId st
                      \<or> fs ! j = files (projects st ! i) ! j)
                     \<and> (\<exists>ext. archive (fs ! j) = archive (files (projects st ! i) ! j) @ ext)))
          \<and> (\<forall>p. currentProject st = Some p \<and> distinct (map file_id (files p)) \<longrightarrow>
                (\<exists>p'. currentProject (handleRevertVersion newId now confirmed versionId st)
                         = Some p'
                   \<and> length (files p') = length (files p)
                   \<and> (\<forall>j<length (files p). files p ! j = af \<or> files p' ! j = files p ! j))))"
proof -
  have absent: "(\<forall>v\<in>set (archive af). version_id v \<noteq> versionId) \<longrightarrow>
            handleRevertVersion newId now confirmed versionId st = st"
    using handleRevertVersion_absent [OF _ af] by blast
  have declined: "\<not> confirmed \<longrightarrow> handleRevertVersion newId now confirmed versionId st = st"
    using handleRevertVersion_declined by simp
  have present: "v \<in> set (archive af) \<and> version_id v = versionId
          \<and> activeFile (handleRevertVersion newId now confirmed versionId st)
              = Some (af\<lparr>content := version_content v, analysis := None,
                   history := Some (archive af @
                     [\<lparr>version_id = newId, timestamp = now, version_content = content af,
                       description = ''Before Revert''\<rparr>])\<rparr>)
          \<and> length (projects (handleRevertVersion newId now confirmed versionId st))
              = length (projects st)"
    if v: "List.find (\<lambda>v. version_id v = versionId) (archive af) = Some v"
      and c: "confirmed" and ne: "currentProjectId st \<noteq> Some []" for v
  proof -
    have "length (projects (handleRevertVersion newId now confirmed versionId st))
              = length (projects st)"
      unfolding handleRevertVersion_eq [OF af v c ne] by simp
    then show ?thesis
      using find_Some_holds [OF v] revert_active [OF af v c ne, of newId now]
      unfolding revertFile_def by simp
  qed
  show ?thesis
    using absent declined present revert_frame [OF af] revert_others [OF af]
    by (intro conjI allI impI; (elim conjE)?) blast+
qed

theorem revert_version_witness:
  "activeFile app1 = Some fileA
   \<and> List.find (\<lambda>v. version_id v = ''v0'') (archive fileA)
       = Some \<lparr>version_id = ''v0'', timestamp = 5, version_content = ''older'',
           description = ''Before Fix 9:00:00 AM''\<rparr>
   \<and> currentProjectId app1 \<noteq> Some []
   \<and> activeFile (handleRevertVersion ''v9'' 2000 True ''v0'' app1)
       = Some (fileA\<lparr>content := ''older'', analysis := None,
            history := Some (archive fileA @
              [\<lparr>version_id = ''v9'', timestamp = 2000, version_content = ''old'',
                description = ''Before Revert''\<rparr>])\<rparr>)
   \<and> ''zz'' \<notin> version_id ` set (archive fileA)
   \<and> handleRevertVersion ''v9'' 2000 True ''zz'' app1 = app1"
proof -
  let ?v0 = "\<lparr>version_id = ''v0'', timestamp = 5, version_content = ''older'',
           description = ''Before Fix 9:00:00 AM''\<rparr>"
  have a: "activeFile app1 = Some fileA" by (rule app1_active)
  have f: "List.find (\<lambda>v. version_id v = ''v0'') (archive fileA) = Some ?v0"
    by (simp add: archive_def fileA_def)
  have c: "currentProjectId app1 \<noteq> Some []" by (simp add: app1_def)
  have z: "\<forall>v\<in>set (archive fileA). version_id v \<noteq> ''zz''"
    by (simp add: archive_def fileA_def)
  have present: "activeFile (handleRevertVersion ''v9'' 2000 True ''v0'' app1)
       = Some (fileA\<lparr>content := version_content ?v0, analysis := None,
            history := Some (archive fileA @
              [\<lparr>version_id = ''v9'', timestamp = 2000, version_content = content fileA,
                description = ''Before Revert''\<rparr>])\<rparr>)"
    using revert_version [OF a, of "''v0''" "''v9''" 2000 True] f c by blast
  have absent: "handleRevertVersion ''v9'' 2000 True ''zz'' app1 = app1"
    using revert_version [OF a, of "''zz''" "''v9''" 2000 True] z by blast
  have "content fileA = ''old''" by (simp add: fileA_def)
  with a f c z present absent show ?thesis by auto
qed

text \<open>
  The claim as stated fails in two ways. A snapshot with id \<open>v0\<close> is in the archive of
  the active file, yet the revert changes nothing when the user declines the confirmation;
  and it changes nothing either, with the confirmation given, when the id of the current
  project is the empty string, which the guard \<open>!currentProjectId\<close> takes for no project.
\<close>

theorem revert_version_counterexample:
  "activeFile app1 = Some fileA
   \<and> ''v0'' \<in> version_id ` set (archive fileA)
   \<and> handleRevertVersion ''v9'' 2000 False ''v0'' app1 = app1
   \<and> content fileA = ''old''
   \<and> activeFile app_empty_pid = Some fileA
   \<and> handleRevertVersion ''v9'' 2000 True ''v0'' app_empty_pid = app_empty_pid"
  by (simp add: handleRevertVersion_def activeFile_def currentProject_def archive_def
      example_defs)

section \<open>Properties of the repository ingestion\<close>

subsection \<open>Strings and the selection of entries\<close>

lemma startsWith_iff: "startsWith s sub \<longleftrightarrow> (\<exists>b. s = sub @ b)"
  by (induction s sub rule: startsWith.induct) auto

lemma js_includes_iff: "js_includes s sub \<longleftrightarrow> (\<exists>a b. s = a @ sub @ b)"
proof (induction s)
  case Nil
  then show ?case by auto
next
  case (Cons x xs)
  show ?case
  proof
    assume "js_includes (x # xs) sub"
    then consider "startsWith (x # xs) sub" | "js_includes xs sub" by auto
    then show "\<exists>a b. x # xs = a @ sub @ b"
    proof cases
      case 1
      then obtain b where "x # xs = sub @ b" by (auto simp: startsWith_iff)
      then have "x # xs = [] @ sub @ b" by simp
      then show ?thesis by blast
    next
      case 2
      with Cons.IH obtain a b where "xs = a @ sub @ b" by blast
      then have "x # xs = (x # a) @ sub @ b" by simp
      then show ?thesis by blast
    qed
  next
    assume "\<exists>a b. x # xs = a @ sub @ b"
    then obtain a b where ab: "x # xs = a @ sub @ b" by blast
    show "js_includes (x # xs) sub"
    proof (cases a)
      case Nil
      with ab have "startsWith (x # xs) sub" by (auto simp: startsWith_iff)
      then show ?thesis by simp
    next
      case (Cons y ys)
      with ab have "xs = ys @ sub @ b" by simp
      with Cons.IH have "js_includes xs sub" by blast
      then show ?thesis by simp
    qed
  qed
qed

lemma js_split_nonempty: "js_split sep s \<noteq> []"
  by (induction s) (auto split: list.splits)

lemma filesToFetch_eq: "filesToFetch tree = take 30 (filter survives tree)"
  unfolding filesToFetch_def survives_def
  by (simp add: list_ex_iff conj_commute)

lemma filesToFetch_empty_iff: "filesToFetch tree = [] \<longleftrightarrow> filter survives tree = []"
  by (simp add: filesToFetch_eq take_eq_Nil)

subsection \<open>The result of a run\<close>

lemma fetchGithubRepo_ok:
  assumes "fetchRepo net owner repo = Response True (Some branch)"
    and "fetchTree net owner repo branch = Response True (Some tree)"
    and "filesToFetch tree \<noteq> []"
  shows "fetchGithubRepo net completion owner repo =
     Inr (List.map_filter
            (\<lambda>i. case js_index (filesToFetch tree) i of
                   None \<Rightarrow> None
                 | Some item \<Rightarrow> fetchItem net owner repo branch item)
            completion)"
  using assms by (simp add: fetchGithubRepo_def)

lemma fetchGithubRepo_Inr:
  assumes "fetchGithubRepo net completion owner repo = Inr fs"
  shows "\<exists>branch tree. fetchRepo net owner repo = Response True (Some branch)
     \<and> fetchTree net owner repo branch = Response True (Some tree)
     \<and> filesToFetch tree \<noteq> []
     \<and> fs = List.map_filter
            (\<lambda>i. case js_index (filesToFetch tree) i of
                   None \<Rightarrow> None
                 | Some item \<Rightarrow> fetchItem net owner repo branch item)
            completion"
  using assms
  by (auto simp: fetchGithubRepo_def split: Response.splits bool.splits option.splits if_splits)

lemma set_map_filter: "set (List.map_filter g xs) = {y. \<exists>x\<in>set xs. g x = Some y}"
  by (induction xs) (auto simp: List.map_filter_simps split: option.splits)

lemma result_from_selected:
  assumes "fetchGithubRepo net completion owner repo = Inr fs" and "f \<in> set fs"
  shows "\<exists>branch tree e. fetchRepo net owner repo = Response True (Some branch)
     \<and> fetchTree net owner repo branch = Response True (Some tree)
     \<and> e \<in> set (filesToFetch tree) \<and> fetchItem net owner repo branch e = Some f"
proof -
  from fetchGithubRepo_Inr [OF assms(1)] obtain branch tree where
    r: "fetchRepo net owner repo = Response True (Some branch)"
    and t: "fetchTree net owner repo branch = Response True (Some tree)"
    and fs: "fs = List.map_filter
            (\<lambda>i. case js_index (filesToFetch tree) i of
                   None \<Rightarrow> None
                 | Some item \<Rightarrow> fetchItem net owner repo branch item)
            completion" by blast
  from assms(2) obtain i e where "js_index (filesToFetch tree) i = Some e"
    "fetchItem net owner repo branch e = Some f"
    unfolding fs by (auto simp: set_map_filter split: option.splits)
  moreover then have "e \<in> set (filesToFetch tree)"
    by (auto simp: js_index_def split: if_splits)
  ultimately show ?thesis using r t by blast
qed

lemma fetchItem_content: "fetchItem net owner repo branch item = Some f \<Longrightarrow> content f \<noteq> []"
  by (auto simp: fetchItem_def Let_def split: option.splits if_splits)

lemma fetchItem_fields:
  "fetchItem net owner repo branch item = Some f \<Longrightarrow>
     file_id f = item_sha item \<and> path f = item_path item
     \<and> name f = js_or (js_pop (js_split CHR ''/'' (item_path item))) (item_path item)
     \<and> language f = js_or (js_pop (js_split CHR ''.'' (item_path item))) ''text''"
  by (auto simp: fetchItem_def Let_def split: option.splits if_splits)

lemma fetchItem_empty_raw:
  assumes "fetchRaw net owner repo branch (item_path item) = Response True (Some [])"
  shows "fetchItem net owner repo branch item = None"
  using assms by (simp add: fetchItem_def Let_def)

lemma result_content:
  assumes "fetchGithubRepo net completion owner repo = Inr fs" and "f \<in> set fs"
  shows "content f \<noteq> []"
proof -
  from fetchGithubRepo_Inr [OF assms(1)] assms(2) obtain branch tree i item
    where "fetchItem net owner repo branch item = Some f"
    by (auto simp: set_map_filter split: option.splits)
  then show ?thesis by (rule fetchItem_content)
qed

lemma map_filter_index:
  assumes "set completion \<subseteq> {..<length xs}"
  shows "List.map_filter (\<lambda>i. case js_index xs i of None \<Rightarrow> None | Some x \<Rightarrow> g x) completion
       = List.map_filter g (map ((!) xs) completion)"
  using assms
  by (induction completion) (simp_all add: List.map_filter_simps js_index_def split: option.splits)

lemma mset_map_filter:
  "mset xs = mset ys \<Longrightarrow> mset (List.map_filter g xs) = mset (List.map_filter g ys)"
  by (metis List.map_filter_def mset_filter mset_map)

lemma map_nth_perm:
  assumes "mset completion = mset [0..<length xs]"
  shows "mset (map ((!) xs) completion) = mset xs"
proof -
  have "mset (map ((!) xs) completion) = mset (map ((!) xs) [0..<length xs])"
    using assms by (metis mset_map)
  then show ?thesis by (simp add: map_nth)
qed

subsection \<open>Errors\<close>

lemma repo_not_found_iff:
  "fetchGithubRepo net completion owner repo = Inl RepositoryNotFound
     \<longleftrightarrow> (\<exists>b. fetchRepo net owner repo = Response False b)"
  by (auto simp: fetchGithubRepo_def split: Response.splits bool.splits option.splits if_splits)

lemma tree_fetch_error_iff:
  "fetchGithubRepo net completion owner repo = Inl TreeFetchError
     \<longleftrightarrow> (\<exists>branch b. fetchRepo net owner repo = Response True (Some branch)
            \<and> fetchTree net owner repo branch = Response False b)"
  by (auto simp: fetchGithubRepo_def split: Response.splits bool.splits option.splits if_splits)

lemma no_readable_files_iff:
  "fetchGithubRepo net completion owner repo = Inl NoReadableFiles
     \<longleftrightarrow> (\<exists>branch tree. fetchRepo net owner repo = Response True (Some branch)
            \<and> fetchTree net owner repo branch = Response True (Some tree)
            \<and> filter survives tree = [])"
  by (auto simp: fetchGithubRepo_def filesToFetch_empty_iff split: Response.splits bool.splits option.splits if_splits)

lemma error_before_fetch:
  "fetchGithubRepo net completion owner repo = Inl e \<Longrightarrow>
   fetchGithubRepo (net\<lparr>fetchRaw := r, fetchBlob := b, atob := d\<rparr>) completion' owner repo = Inl e"
  by (auto simp: fetchGithubRepo_def split: Response.splits bool.splits option.splits if_splits)

lemma import_failed:
  assumes "parseGithubUrl pf (githubUrl_input st) = Some (owner, repo)"
    and "fetchGithubRepo net completion owner repo = Inl e"
  shows "handleGithubImport pf net completion st =
     st\<lparr>alerts := alerts st @ [''Import Failed: '' @ errorMessage pf e], loadingMsg := []\<rparr>"
  using assms by (simp add: handleGithubImport_def)

lemmas net_defs = net_readme_def net_two_def net_makefile_def net_404_def net_tree_500_def
  net_ignored_def net_empty_raw_def blob_def

lemmas ingest_defs = fetchGithubRepo_def filesToFetch_def IGNORED_PATHS_def fetchItem_def
  js_index_def js_pop_def js_or_def List.map_filter_simps

subsection \<open>Claims about the ingestion\<close>

text \<open>
  C4. The entries selected for fetching are the first 30 survivors of the tree, in tree
  order, where an entry survives when it is a blob and none of the denylisted strings occurs
  in its path as a substring. For a tree with 45 survivors exactly the first 30 of them are
  selected; for the tree of the four blobs \<open>node_modules/a.js\<close>, \<open>src/b.js\<close>,
  \<open>.git/HEAD\<close> and \<open>dist/bundle.js\<close> the selection is \<open>src/b.js\<close> alone. Every record
  of a result comes from fetching a selected entry.
\<close>

theorem files_to_fetch:
  "filesToFetch tree = take 30 (filter survives tree)
   \<and> (survives e \<longleftrightarrow>
        item_type e = Blob
        \<and> \<not> (\<exists>ignored\<in>set IGNORED_PATHS. \<exists>a b. item_path e = a @ ignored @ b))
   \<and> (length (filter survives tree) = 45 \<longrightarrow>
        length (filesToFetch tree) = 30
        \<and> (\<forall>k<30. filesToFetch tree ! k = filter survives tree ! k))
   \<and> filesToFetch [blob ''node_modules/a.js'', blob ''src/b.js'', blob ''.git/HEAD'',
        blob ''dist/bundle.js''] = [blob ''src/b.js'']
   \<and> (\<forall>fs. fetchGithubRepo net completion owner repo = Inr fs \<longrightarrow>
        (\<forall>f\<in>set fs. \<exists>branch tree' e.
            fetchRepo net owner repo = Response True (Some branch)
            \<and> fetchTree net owner repo branch = Response True (Some tree')
            \<and> e \<in> set (filesToFetch tree') \<and> fetchItem net owner repo branch e = Some f))"
proof -
  have a: "filesToFetch tree = take 30 (filter survives tree)" by (rule filesToFetch_eq)
  have b: "survives e \<longleftrightarrow>
        item_type e = Blob
        \<and> \<not> (\<exists>ignored\<in>set IGNORED_PATHS. \<exists>a b. item_path e = a @ ignored @ b)"
    unfolding survives_def js_includes_iff by blast
  have c: "length (filesToFetch tree) = 30
        \<and> (\<forall>k<30. filesToFetch tree ! k = filter survives tree ! k)"
    if "length (filter survives tree) = 45"
    using that unfolding a by simp
  have d: "filesToFetch [blob ''node_modules/a.js'', blob ''src/b.js'', blob ''.git/HEAD'',
        blob ''dist/bundle.js''] = [blob ''src/b.js'']"
    by (simp add: filesToFetch_def blob_def IGNORED_PATHS_def)
  show ?thesis
    using a b c d result_from_selected [of net completion owner repo] by blast
qed

theorem files_to_fetch_witness:
  "length (filter survives tree45) = 45
   \<and> length (filesToFetch tree45) = 30
   \<and> filesToFetch tree45 = take 30 tree45
   \<and> map item_path (filesToFetch tree45)
       = map (\<lambda>n. ''src/f'' @ replicate n CHR ''x'') [0..<30]"
proof -
  have h: "length (filter survives tree45) = 45" by code_simp
  have "length (filesToFetch tree45) = 30"
    using files_to_fetch [of tree45] h by blast
  moreover have "filesToFetch tree45 = take 30 tree45" by code_simp
  moreover have "map item_path (filesToFetch tree45)
       = map (\<lambda>n. ''src/f'' @ replicate n CHR ''x'') [0..<30]" by code_simp
  ultimately show ?thesis using h by blast
qed

text \<open>
  C5 (as amended). When both lookups succeed and some entry is selected, then for every
  order in which the per-file fetches complete the result lists the records of the
  successfully fetched entries in that completion order. It holds the same records, each as
  often, as the list in tree order, and it is the list in tree order when the fetches
  complete in tree order.
\<close>

theorem result_order:
  assumes r: "fetchRepo net owner repo = Response True (Some branch)"
    and t: "fetchTree net owner repo branch = Response True (Some tree)"
    and ne: "filesToFetch tree \<noteq> []"
    and perm: "mset completion = mset [0..<length (filesToFetch tree)]"
  shows "fetchGithubRepo net completion owner repo
       = Inr (List.map_filter (fetchItem net owner repo branch)
                (map ((!) (filesToFetch tree)) completion))
     \<and> fetchGithubRepo net [0..<length (filesToFetch tree)] owner repo
       = Inr (List.map_filter (fetchItem net owner repo branch) (filesToFetch tree))
     \<and> mset (List.map_filter (fetchItem net owner repo branch)
                (map ((!) (filesToFetch tree)) completion))
       = mset (List.map_filter (fetchItem net owner repo branch) (filesToFetch tree))"
proof -
  have sub: "set completion \<subseteq> {..<length (filesToFetch tree)}"
    using perm by (metis atLeast_upt mset_eq_setD order_refl)
  have a: "fetchGithubRepo net completion owner repo
       = Inr (List.map_filter (fetchItem net owner repo branch)
                (map ((!) (filesToFetch tree)) completion))"
    unfolding fetchGithubRepo_ok [OF r t ne] using map_filter_index [OF sub] by simp
  have "set [0..<length (filesToFetch tree)] \<subseteq> {..<length (filesToFetch tree)}" by auto
  from map_filter_index [OF this, of "fetchItem net owner repo branch"]
  have b: "fetchGithubRepo net [0..<length (filesToFetch tree)] owner repo
       = Inr (List.map_filter (fetchItem net owner repo branch) (filesToFetch tree))"
    unfolding fetchGithubRepo_ok [OF r t ne] by (simp add: map_nth)
  have c: "mset (List.map_filter (fetchItem net owner repo branch)
                (map ((!) (filesToFetch tree)) completion))
       = mset (List.map_filter (fetchItem net owner repo branch) (filesToFetch tree))"
    by (rule mset_map_filter) (rule map_nth_perm [OF perm])
  from a b c show ?thesis by blast
qed

theorem result_order_witness:
  "fetchRepo net_two ''octo'' ''demo'' = Response True (Some ''main'')
   \<and> fetchTree net_two ''octo'' ''demo'' ''main'' = Response True (Some [blob ''a.ts'', blob ''b.ts''])
   \<and> filesToFetch [blob ''a.ts'', blob ''b.ts''] = [blob ''a.ts'', blob ''b.ts'']
   \<and> mset [1, 0] = mset [0..<length (filesToFetch [blob ''a.ts'', blob ''b.ts''])]
   \<and> fetchGithubRepo net_two [1, 0] ''octo'' ''demo''
       = Inr (List.map_filter (fetchItem net_two ''octo'' ''demo'' ''main'') [blob ''b.ts'', blob ''a.ts''])
   \<and> fetchGithubRepo net_two [0, 1] ''octo'' ''demo''
       = Inr (List.map_filter (fetchItem net_two ''octo'' ''demo'' ''main'') [blob ''a.ts'', blob ''b.ts''])"
proof -
  let ?tree = "[blob ''a.ts'', blob ''b.ts'']"
  have r: "fetchRepo net_two ''octo'' ''demo'' = Response True (Some ''main'')"
    by (simp add: net_defs)
  have t: "fetchTree net_two ''octo'' ''demo'' ''main'' = Response True (Some ?tree)"
    by (simp add: net_defs)
  have f: "filesToFetch ?tree = ?tree"
    by (simp add: filesToFetch_def IGNORED_PATHS_def blob_def)
  have ne: "filesToFetch ?tree \<noteq> []" by (simp add: f)
  have u: "[0..<length (filesToFetch ?tree)] = [0, 1]" by (simp add: f upt_rec)
  have perm: "mset [1, 0] = mset [0..<length (filesToFetch ?tree)]" by (simp add: u)
  show ?thesis
    using result_order [OF r t ne perm] r t f perm by (simp add: u)
qed

text \<open>
  The claim as stated fails: with two selected entries \<open>a.ts\<close> and \<open>b.ts\<close>, in this
  order in the tree, and the fetch of the second completing first, the result lists
  \<open>b.ts\<close> before \<open>a.ts\<close>.
\<close>

theorem result_order_counterexample:
  "map item_path (filesToFetch [blob ''a.ts'', blob ''b.ts'']) = [''a.ts'', ''b.ts'']
   \<and> fetchTree net_two ''octo'' ''demo'' ''main'' = Response True (Some [blob ''a.ts'', blob ''b.ts''])
   \<and> mset [1, 0] = mset [0 ..< 2]
   \<and> map_sum id (map path) (fetchGithubRepo net_two [1, 0] ''octo'' ''demo'')
       = Inr [''b.ts'', ''a.ts'']"
  by (simp add: ingest_defs net_defs upt_rec)

text \<open>
  C6. The end-to-end scenario of the claim holds: \<open>README.md\<close> with raw content
  \<open># Hello\<close> gives the single record with language \<open>md\<close>. For the path \<open>Makefile\<close>,
  which has no extension, the language is not \<open>text\<close> but the path itself:
  \<open>"Makefile".split(".")\<close> is the one-element array of the whole path, whose last
  element is not empty, so the fallback \<open>|| 'text'\<close> is not taken.
\<close>

theorem language_of_makefile:
  "fetchGithubRepo net_readme [0] ''octo'' ''demo'' =
     Inr [\<lparr>file_id = ''sha-README.md'', name = ''README.md'', path = ''README.md'',
          content = ''# Hello'', language = ''md'', analysis = None, isAnalyzing = None,
          stagingContent = None, isFixing = None, history = None, cursor = None\<rparr>]
   \<and> fetchGithubRepo net_makefile [0] ''octo'' ''demo'' =
     Inr [\<lparr>file_id = ''sha-Makefile'', name = ''Makefile'', path = ''Makefile'',
          content = ''all:'', language = ''Makefile'', analysis = None, isAnalyzing = None,
          stagingContent = None, isFixing = None, history = None, cursor = None\<rparr>]
   \<and> js_split CHR ''.'' ''Makefile'' = [''Makefile'']
   \<and> js_or (js_pop (js_split CHR ''.'' ''Makefile'')) ''text'' \<noteq> ''text''"
  by (simp add: ingest_defs net_defs)

text \<open>
  C9. \<open>fetchGithubRepo\<close> throws \<open>RepositoryNotFound\<close> exactly when the repository lookup
  answers with a status that is not ok, \<open>TreeFetchError\<close> exactly when the lookup gave a
  branch and the tree fetch for it answers with a status that is not ok, and
  \<open>NoReadableFiles\<close> exactly when both succeeded and no entry of the tree survives the
  filter. Whenever it throws, it does so whatever the per-file requests would have answered,
  and \<open>handleGithubImport\<close> only records the alert and clears the loading message: the
  list of projects and the two selectors are unchanged.
\<close>

theorem ingestion_errors:
  "(fetchGithubRepo net completion owner repo = Inl RepositoryNotFound
      \<longleftrightarrow> (\<exists>b. fetchRepo net owner repo = Response False b))
   \<and> (fetchGithubRepo net completion owner repo = Inl TreeFetchError
      \<longleftrightarrow> (\<exists>branch b. fetchRepo net owner repo = Response True (Some branch)
             \<and> fetchTree net owner repo branch = Response False b))
   \<and> (fetchGithubRepo net completion owner repo = Inl NoReadableFiles
      \<longleftrightarrow> (\<exists>branch tree. fetchRepo net owner repo = Response True (Some branch)
             \<and> fetchTree net owner repo branch = Response True (Some tree)
             \<and> filter survives tree = []))
   \<and> (\<forall>e. fetchGithubRepo net completion owner repo = Inl e \<longrightarrow>
         (\<forall>r b d completion'.
            fetchGithubRepo (net\<lparr>fetchRaw := r, fetchBlob := b, atob := d\<rparr>) completion' owner repo
              = Inl e)
         \<and> (parseGithubUrl pf (githubUrl_input st) = Some (owner, repo) \<longrightarrow>
              handleGithubImport pf net completion st
                = st\<lparr>alerts := alerts st @ [''Import Failed: '' @ errorMessage pf e],
                     loadingMsg := []\<rparr>
              \<and> projects (handleGithubImport pf net completion st) = projects st
              \<and> currentProjectId (handleGithubImport pf net completion st) = currentProjectId st
              \<and> activeFileId (handleGithubImport pf net completion st) = activeFileId st))"
proof -
  have imp: "handleGithubImport pf net completion st
                = st\<lparr>alerts := alerts st @ [''Import Failed: '' @ errorMessage pf e],
                     loadingMsg := []\<rparr>
              \<and> projects (handleGithubImport pf net completion st) = projects st
              \<and> currentProjectId (handleGithubImport pf net completion st) = currentProjectId st
              \<and> activeFileId (handleGithubImport pf net completion st) = activeFileId st"
    if "fetchGithubRepo net completion owner repo = Inl e"
      "parseGithubUrl pf (githubUrl_input st) = Some (owner, repo)" for e
    using import_failed [OF that(2) that(1)] by simp
  show ?thesis
    using repo_not_found_iff [of net completion owner repo]
      tree_fetch_error_iff [of net completion owner repo]
      no_readable_files_iff [of net completion owner repo]
      error_before_fetch [of net completion owner repo] imp
    by blast
qed

theorem ingestion_errors_witness:
  "fetchRepo net_404 ''octo'' ''demo'' = Response False None
   \<and> fetchGithubRepo net_404 [0] ''octo'' ''demo'' = Inl RepositoryNotFound
   \<and> fetchTree net_tree_500 ''octo'' ''demo'' ''main'' = Response False None
   \<and> fetchGithubRepo net_tree_500 [0] ''octo'' ''demo'' = Inl TreeFetchError
   \<and> fetchTree net_ignored ''octo'' ''demo'' ''main''
       = Response True (Some [blob ''node_modules/a.js'', blob ''.git/HEAD''])
   \<and> filter survives [blob ''node_modules/a.js'', blob ''.git/HEAD''] = []
   \<and> fetchGithubRepo net_ignored [0] ''octo'' ''demo'' = Inl NoReadableFiles
   \<and> parseGithubUrl platform1 (githubUrl_input app_import) = Some (''octo'', ''demo'')
   \<and> projects (handleGithubImport platform1 net_404 [0] app_import) = projects app_import
   \<and> alerts (handleGithubImport platform1 net_404 [0] app_import)
       = [''Import Failed: Repository not found or private'']"
proof -
  have r: "fetchRepo net_404 ''octo'' ''demo'' = Response False None"
    by (simp add: net_defs)
  have r': "fetchRepo net_tree_500 ''octo'' ''demo'' = Response True (Some ''main'')"
    "fetchRepo net_ignored ''octo'' ''demo'' = Response True (Some ''main'')"
    by (simp_all add: net_defs)
  have t: "fetchTree net_tree_500 ''octo'' ''demo'' ''main'' = Response False None"
    by (simp add: net_defs)
  have t': "fetchTree net_ignored ''octo'' ''demo'' ''main''
       = Response True (Some [blob ''node_modules/a.js'', blob ''.git/HEAD''])"
    by (simp add: net_defs)
  have s: "filter survives [blob ''node_modules/a.js'', blob ''.git/HEAD''] = []"
    by (simp add: survives_def IGNORED_PATHS_def blob_def)
  have p: "parseGithubUrl platform1 (githubUrl_input app_import) = Some (''octo'', ''demo'')"
    by (simp add: parseGithubUrl_def platform1_def app_import_def)
  have e1: "fetchGithubRepo net_404 [0] ''octo'' ''demo'' = Inl RepositoryNotFound"
    using ingestion_errors [of net_404 "[0]" "''octo''" "''demo''"] r by blast
  have e2: "fetchGithubRepo net_tree_500 [0] ''octo'' ''demo'' = Inl TreeFetchError"
    using ingestion_errors [of net_tree_500 "[0]" "''octo''" "''demo''"] r' t by blast
  have e3: "fetchGithubRepo net_ignored [0] ''octo'' ''demo'' = Inl NoReadableFiles"
    using ingestion_errors [of net_ignored "[0]" "''octo''" "''demo''"] r' t' s by blast
  have i: "handleGithubImport platform1 net_404 [0] app_import
      = app_import\<lparr>alerts := alerts app_import
            @ [''Import Failed: '' @ errorMessage platform1 RepositoryNotFound],
          loadingMsg := []\<rparr>"
    using ingestion_errors [of net_404 "[0]" "''octo''" "''demo''" platform1 app_import] e1 p
    by blast
  have a: "alerts (handleGithubImport platform1 net_404 [0] app_import)
       = [''Import Failed: Repository not found or private'']"
    unfolding i by (simp add: errorMessage_def app_import_def app1_def)
  have "projects (handleGithubImport platform1 net_404 [0] app_import) = projects app_import"
    unfolding i by simp
  with r e1 t e2 t' s e3 p a show ?thesis by blast
qed

text \<open>
  C10. Every record of a result has non-empty content. An entry whose raw fetch succeeds
  with an empty body yields no record, whatever the blob request and the decoder would
  give, so the fallback plays no part; no record of the result has its path. An entry
  whose raw fetch and blob fetch both fail yields no record either.
\<close>

theorem nonempty_content:
  "(\<forall>fs. fetchGithubRepo net completion owner repo = Inr fs \<longrightarrow>
       (\<forall>f\<in>set fs. content f \<noteq> []))
   \<and> (fetchRaw net owner repo branch (item_path item) = Response True (Some []) \<longrightarrow>
        fetchItem net owner repo branch item = None
        \<and> (\<forall>b d. fetchItem (net\<lparr>fetchBlob := b, atob := d\<rparr>) owner repo branch item = None)
        \<and> (\<forall>fs. fetchRepo net owner repo = Response True (Some branch)
              \<and> fetchGithubRepo net completion owner repo = Inr fs \<longrightarrow>
              item_path item \<notin> path ` set fs))
   \<and> (fetchRaw net owner repo branch (item_path item) = Rejected
        \<and> fetchBlob net (item_url item) = Rejected \<longrightarrow>
        fetchItem net owner repo branch item = None)"
proof -
  have a: "\<forall>fs. fetchGithubRepo net completion owner repo = Inr fs \<longrightarrow>
       (\<forall>f\<in>set fs. content f \<noteq> [])"
    using result_content by blast
  have b: "fetchItem net owner repo branch item = None
        \<and> (\<forall>b d. fetchItem (net\<lparr>fetchBlob := b, atob := d\<rparr>) owner repo branch item = None)"
    if "fetchRaw net owner repo branch (item_path item) = Response True (Some [])"
    using that by (simp add: fetchItem_empty_raw)
  have c: "item_path item \<notin> path ` set fs"
    if raw: "fetchRaw net owner repo branch (item_path item) = Response True (Some [])"
      and r: "fetchRepo net owner repo = Response True (Some branch)"
      and fs: "fetchGithubRepo net completion owner repo = Inr fs" for fs
  proof
    assume "item_path item \<in> path ` set fs"
    then obtain f where f: "f \<in> set fs" "path f = item_path item" by auto
    from result_from_selected [OF fs f(1)] r obtain e where
      e: "fetchItem net owner repo branch e = Some f" by auto
    from fetchItem_fields [OF e] f(2) have "item_path e = item_path item" by simp
    with raw have "fetchItem net owner repo branch e = None"
      by (simp add: fetchItem_empty_raw)
    with e show False by simp
  qed
  have d: "fetchItem net owner repo branch item = None"
    if "fetchRaw net owner repo branch (item_path item) = Rejected"
      "fetchBlob net (item_url item) = Rejected"
    using that by (simp add: fetchItem_def)
  show ?thesis using a b c d by blast
qed

theorem nonempty_content_witness:
  "fetchGithubRepo net_readme [0] ''octo'' ''demo'' =
     Inr [\<lparr>file_id = ''sha-README.md'', name = ''README.md'', path = ''README.md'',
          content = ''# Hello'', language = ''md'', analysis = None, isAnalyzing = None,
          stagingContent = None, isFixing = None, history = None, cursor = None\<rparr>]
   \<and> ''# Hello'' \<noteq> []
   \<and> fetchRaw net_empty_raw ''octo'' ''demo'' ''main'' (item_path (blob ''README.md''))
       = Response True (Some [])
   \<and> fetchBlob net_empty_raw (item_url (blob ''README.md'')) = Response True (Some ''SGk='')
   \<and> atob net_empty_raw ''SGk='' = Some ''Hi''
   \<and> fetchItem net_empty_raw ''octo'' ''demo'' ''main'' (blob ''README.md'') = None
   \<and> fetchGithubRepo net_empty_raw [0] ''octo'' ''demo'' = Inr []"
proof -
  have raw: "fetchRaw net_empty_raw ''octo'' ''demo'' ''main'' (item_path (blob ''README.md''))
       = Response True (Some [])"
    by (simp add: net_defs)
  have "fetchItem net_empty_raw ''octo'' ''demo'' ''main'' (blob ''README.md'') = None"
    using nonempty_content [of net_empty_raw _ "''octo''" "''demo''" "''main''" "blob ''README.md''"]
      raw by blast
  moreover have "fetchGithubRepo net_readme [0] ''octo'' ''demo'' =
     Inr [\<lparr>file_id = ''sha-README.md'', name = ''README.md'', path = ''README.md'',
          content = ''# Hello'', language = ''md'', analysis = None, isAnalyzing = None,
          stagingContent = None, isFixing = None, history = None, cursor = None\<rparr>]"
    by (simp add: ingest_defs net_defs)
  moreover have "fetchGithubRepo net_empty_raw [0] ''octo'' ''demo'' = Inr []"
    by (simp add: ingest_defs net_defs)
  moreover have "fetchBlob net_empty_raw (item_url (blob ''README.md'')) = Response True (Some ''SGk='')"
    "atob net_empty_raw ''SGk='' = Some ''Hi''"
    by (simp_all add: net_defs)
  ultimately show ?thesis using raw by simp
qed

end
